theory Spec2Isabelle
  imports Complex_Main "HOL-Library.Sublist" "HOL-Library.Multiset" "HOL-Library.Word"
begin

section \<open>Python strings and paths\<close>

text \<open>
  File names are Python \<open>str\<close> values, modelled as \<open>string\<close>. A code point outside
  ASCII appears as its UTF-8 bytes; \<open>str.lower\<close> is modelled on the ASCII letters and
  leaves every other character alone. None of the six extensions of the allow-list
  contains a character that a non-ASCII code point lower-cases to.
\<close>

definition lower_char :: "char \<Rightarrow> char" where
  "lower_char c =
     (case map_of (zip ''ABCDEFGHIJKLMNOPQRSTUVWXYZ'' ''abcdefghijklmnopqrstuvwxyz'') c of
        Some d \<Rightarrow> d
      | None \<Rightarrow> c)"

definition lower :: "string \<Rightarrow> string" where
  "lower s = map lower_char s"

text \<open>\<open>s.endswith(ext)\<close>.\<close>

definition endswith :: "string \<Rightarrow> string \<Rightarrow> bool" where
  "endswith s ext = suffix ext s"

text \<open>\<open>p.rfind(c)\<close> for a single character: the highest index holding \<open>c\<close>, or \<open>-1\<close>.\<close>

fun rfind_upto :: "string \<Rightarrow> char \<Rightarrow> nat \<Rightarrow> int" where
  "rfind_upto p c 0 = - 1"
| "rfind_upto p c (Suc n) = (if p ! n = c then int n else rfind_upto p c n)"

definition rfind :: "string \<Rightarrow> char \<Rightarrow> int" where
  "rfind p c = rfind_upto p c (length p)"

text \<open>
  \<open>os.path.splitext\<close> is \<open>genericpath._splitext(p, sep, altsep, extsep)\<close> of the standard
  library, here with the POSIX parameters \<open>sep = '/'\<close>, \<open>altsep = None\<close>,
  \<open>extsep = '.'\<close>:
  \<^verbatim>\<open>
    sepIndex = p.rfind(sep)
    dotIndex = p.rfind(extsep)
    if dotIndex > sepIndex:
        filenameIndex = sepIndex + 1
        while filenameIndex < dotIndex:
            if p[filenameIndex:filenameIndex+1] != extsep:
                return p[:dotIndex], p[dotIndex:]
            filenameIndex += 1
    return p, p[:0]
  \<close>
\<close>

function splitext_loop :: "string \<Rightarrow> nat \<Rightarrow> nat \<Rightarrow> string \<times> string" where
  "splitext_loop p dotIndex filenameIndex =
     (if filenameIndex < dotIndex then
        (if p ! filenameIndex \<noteq> CHR ''.'' then (take dotIndex p, drop dotIndex p)
         else splitext_loop p dotIndex (filenameIndex + 1))
      else (p, []))"
  by pat_completeness auto
termination
  by (relation "measure (\<lambda>(p, dotIndex, filenameIndex). dotIndex - filenameIndex)") auto

definition splitext :: "string \<Rightarrow> string \<times> string" where
  "splitext p =
     (let sepIndex = rfind p CHR ''/'';
          dotIndex = rfind p CHR ''.''
      in if dotIndex > sepIndex then splitext_loop p (nat dotIndex) (nat (sepIndex + 1))
         else (p, []))"

text \<open>\<open>sep.join(parts)\<close>.\<close>

fun join :: "string \<Rightarrow> string list \<Rightarrow> string" where
  "join sep [] = []"
| "join sep [x] = x"
| "join sep (x # y # ys) = x @ sep @ join sep (y # ys)"

section \<open>Upload validation of the two endpoints\<close>

text \<open>The set literal that both handlers build.\<close>

definition allowed_extensions :: "string set" where
  "allowed_extensions = {''.jpg'', ''.jpeg'', ''.png'', ''.bmp'', ''.gif'', ''.webp''}"

text \<open>
  \<open>backend/app/main.py\<close>, \<open>classify_image\<close>:
  \<open>file_ext = os.path.splitext(file.filename)[1].lower()\<close> and the test
  \<open>file_ext not in allowed_extensions\<close>.
\<close>

definition file_ext :: "string \<Rightarrow> string" where
  "file_ext filename = lower (snd (splitext filename))"

definition classify_accepts :: "string \<Rightarrow> bool" where
  "classify_accepts filename = (file_ext filename \<in> allowed_extensions)"

text \<open>
  \<open>backend/main.py\<close>, \<open>predict_image\<close>, the nested \<open>validate_file_type\<close>:
  \<open>any(filename.lower().endswith(ext) for ext in allowed_extensions)\<close>.
\<close>

definition validate_file_type :: "string \<Rightarrow> bool" where
  "validate_file_type filename = (\<exists>ext \<in> allowed_extensions. endswith (lower filename) ext)"

section \<open>Exceptions\<close>

text \<open>
  A raised exception is a value: its class and its message (\<open>str(e)\<close>). Every function
  that can raise returns \<open>exn + 'a\<close>, with \<open>Inl\<close> for the exception.
\<close>

datatype exception_class =
  OSError | UnidentifiedImageError | FileNotFoundError | ValueError | TypeError
  | RuntimeError | IndexError | ZeroDivisionError | AttributeError | OverflowError | MemoryError

datatype exn = Exception exception_class string

fun str :: "exn \<Rightarrow> string" where
  "str (Exception c msg) = msg"

section \<open>Floating-point numbers\<close>

text \<open>The nearest integer, a tie going to the even one.\<close>

definition half_even :: "real \<Rightarrow> int" where
  "half_even y =
     (let f = \<lfloor>y\<rfloor>; r = y - of_int f
      in if r < 1 / 2 then f else if 1 / 2 < r then f + 1 else if even f then f else f + 1)"

text \<open>
  \<open>round_to p emin x\<close> is the binary floating-point number with \<open>p\<close> significant bits
  nearest to \<open>x\<close>, a tie going to the even significand (the rounding of IEEE 754
  arithmetic). Below \<open>2 ^ emin\<close> the numbers are the subnormal ones, all with the spacing
  of the lowest binade. The exponent has no upper end here: overflow is the caller's.
\<close>

definition round_to :: "nat \<Rightarrow> int \<Rightarrow> real \<Rightarrow> real" where
  "round_to p emin x =
     (let e = (if \<bar>x\<bar> < 2 powr of_int emin then emin else \<lfloor>log 2 \<bar>x\<bar>\<rfloor>);
          ulp = 2 powr of_int (e - int p + 1)
      in of_int (half_even (x / ulp)) * ulp)"

text \<open>
  A \<open>float\<close> literal of Python is the double nearest to the decimal numeral. The
  literals of this program are far below the largest double.
\<close>

definition py_float :: "real \<Rightarrow> real" where
  "py_float x = round_to 53 (- 1022) x"

text \<open>
  A \<open>float32\<close> value: a number, an infinity or NaN. The sign of a zero is not kept.
\<close>

datatype f32 = Finite real | PosInf | NegInf | NaN

text \<open>The largest finite \<open>float32\<close>.\<close>

definition f32_max :: real where
  "f32_max = (2 ^ 24 - 1) * 2 ^ 104"

text \<open>Rounding a real number to \<open>float32\<close>; what rounds beyond the largest finite value is infinite.\<close>

definition to_f32 :: "real \<Rightarrow> f32" where
  "to_f32 x =
     (let q = round_to 24 (- 126) x
      in if f32_max < q then PosInf else if q < - f32_max then NegInf else Finite q)"

text \<open>\<open>torch.isfinite\<close> on one entry.\<close>

fun is_finite :: "f32 \<Rightarrow> bool" where
  "is_finite (Finite x) = True"
| "is_finite PosInf = False"
| "is_finite NegInf = False"
| "is_finite NaN = False"

text \<open>Subtraction and division of \<open>float32\<close> values.\<close>

fun f32_sub :: "f32 \<Rightarrow> f32 \<Rightarrow> f32" where
  "f32_sub (Finite x) (Finite y) = to_f32 (x - y)"
| "f32_sub NaN b = NaN"
| "f32_sub a NaN = NaN"
| "f32_sub PosInf PosInf = NaN"
| "f32_sub NegInf NegInf = NaN"
| "f32_sub PosInf b = PosInf"
| "f32_sub NegInf b = NegInf"
| "f32_sub (Finite x) PosInf = NegInf"
| "f32_sub (Finite x) NegInf = PosInf"

fun f32_div :: "f32 \<Rightarrow> f32 \<Rightarrow> f32" where
  "f32_div (Finite x) (Finite y) =
     (if y = 0 then (if x = 0 then NaN else if 0 < x then PosInf else NegInf)
      else to_f32 (x / y))"
| "f32_div NaN b = NaN"
| "f32_div a NaN = NaN"
| "f32_div (Finite x) b = Finite 0"
| "f32_div PosInf (Finite y) = (if 0 \<le> y then PosInf else NegInf)"
| "f32_div NegInf (Finite y) = (if 0 \<le> y then NegInf else PosInf)"
| "f32_div a b = NaN"

section \<open>Images and tensors\<close>

text \<open>
  A decoded PIL image: its mode, its size and its samples. The modes are the ones
  whose bands hold 8-bit samples; \<open>Bilevel\<close> is PIL's mode \<open>"1"\<close>. The modes with wider
  samples (\<open>I\<close>, \<open>F\<close>, \<open>I;16\<close>) are outside this model.
\<close>

datatype pil_mode = Bilevel | L | LA | P | PA | RGB | RGBA | RGBX | CMYK | YCbCr | LAB | HSV

text \<open>\<open>len(image.getbands())\<close>.\<close>

fun num_bands :: "pil_mode \<Rightarrow> nat" where
  "num_bands Bilevel = 1"
| "num_bands L = 1"
| "num_bands P = 1"
| "num_bands LA = 2"
| "num_bands PA = 2"
| "num_bands RGB = 3"
| "num_bands YCbCr = 3"
| "num_bands LAB = 3"
| "num_bands HSV = 3"
| "num_bands RGBA = 4"
| "num_bands RGBX = 4"
| "num_bands CMYK = 4"

text \<open>\<open>getpixel img x y b\<close> is the sample of band \<open>b\<close> at column \<open>x\<close>, row \<open>y\<close>.\<close>

record image =
  mode :: pil_mode
  width :: nat
  height :: nat
  getpixel :: "nat \<Rightarrow> nat \<Rightarrow> nat \<Rightarrow> 8 word"

text \<open>
  A tensor: its shape, its dtype and its entries by index. The dtypes are the two that
  occur in the pipeline; the entries of a \<open>uint8\<close> tensor are whole numbers from 0 to 255,
  each of which is a \<open>float32\<close> value too.
\<close>

datatype dtype = uint8 | float32

record tensor =
  shape :: "nat list"
  dtype :: dtype
  item :: "nat list \<Rightarrow> f32"

section \<open>The transforms of torchvision\<close>

text \<open>
  \<open>Image.resize\<close> of PIL is a parameter: \<open>resample img w h\<close> gives the samples of \<open>img\<close>
  resized to \<open>w\<close> by \<open>h\<close>, 8-bit samples as PIL's are, or the exception PIL raises: a
  side too long for a C \<open>int\<close> is an \<open>OverflowError\<close>, an image too large to allocate a
  \<open>MemoryError\<close>.
\<close>

type_synonym resampler =
  "image \<Rightarrow> nat \<Rightarrow> nat \<Rightarrow> exn + (nat \<Rightarrow> nat \<Rightarrow> nat \<Rightarrow> 8 word)"

text \<open>
  \<open>transforms.Resize(size)\<close> with an integer size: the shorter side becomes \<open>size\<close>, the
  longer one \<open>int(size * long / short)\<close>; an image that already has that size is returned
  as it is, every other one goes to \<open>Image.resize\<close>.
\<close>

definition resize :: "resampler \<Rightarrow> nat \<Rightarrow> image \<Rightarrow> exn + image" where
  "resize resample size' img =
     (let w = width img; h = height img;
          short = (if w \<le> h then w else h);
          long = (if w \<le> h then h else w)
      in if short = 0 then Inl (Exception ZeroDivisionError ''division by zero'')
         else
           let new_short = size';
               new_long = (size' * long) div short;
               new_w = (if w \<le> h then new_short else new_long);
               new_h = (if w \<le> h then new_long else new_short)
           in if new_w = w \<and> new_h = h then Inr img
              else
                (case resample img new_w new_h of
                   Inl e \<Rightarrow> Inl e
                 | Inr samples \<Rightarrow>
                     Inr \<lparr>mode = mode img, width = new_w, height = new_h,
                          getpixel = samples\<rparr>))"

text \<open>\<open>F.pad(img, [left, top, right, bottom], fill=0)\<close>.\<close>

definition pad :: "image \<Rightarrow> nat \<Rightarrow> nat \<Rightarrow> nat \<Rightarrow> nat \<Rightarrow> image" where
  "pad img left' top' right' bottom' =
     \<lparr>mode = mode img,
      width = width img + left' + right',
      height = height img + top' + bottom',
      getpixel = (\<lambda>x y b.
        if left' \<le> x \<and> x < left' + width img \<and> top' \<le> y \<and> y < top' + height img
        then getpixel img (x - left') (y - top') b else 0)\<rparr>"

text \<open>\<open>F.crop(img, top, left, height, width)\<close>.\<close>

definition crop :: "image \<Rightarrow> nat \<Rightarrow> nat \<Rightarrow> nat \<Rightarrow> nat \<Rightarrow> image" where
  "crop img top' left' h w =
     \<lparr>mode = mode img, width = w, height = h,
      getpixel = (\<lambda>x y b. getpixel img (x + left') (y + top') b)\<rparr>"

text \<open>\<open>int(round(d / 2.0))\<close> for \<open>d \<ge> 0\<close>: Python rounds a half to the even neighbour.\<close>

definition round_half :: "nat \<Rightarrow> nat" where
  "round_half d =
     (if even d then d div 2 else if even (d div 2) then d div 2 else d div 2 + 1)"

text \<open>
  \<open>transforms.CenterCrop(size)\<close>: an image smaller than the crop is padded with zeros
  first, then the centre is cut out.
\<close>

definition center_crop :: "nat \<Rightarrow> image \<Rightarrow> image" where
  "center_crop size' img =
     (let crop_height = size'; crop_width = size';
          image_width = width img; image_height = height img
      in if crop_width > image_width \<or> crop_height > image_height then
           let img' = pad img
                 (if crop_width > image_width then (crop_width - image_width) div 2 else 0)
                 (if crop_height > image_height then (crop_height - image_height) div 2 else 0)
                 (if crop_width > image_width then (crop_width - image_width + 1) div 2 else 0)
                 (if crop_height > image_height then (crop_height - image_height + 1) div 2 else 0)
           in if crop_width = width img' \<and> crop_height = height img' then img'
              else crop img' (round_half (height img' - crop_height))
                     (round_half (width img' - crop_width)) crop_height crop_width
         else crop img (round_half (image_height - crop_height))
                (round_half (image_width - crop_width)) crop_height crop_width)"

text \<open>
  \<open>transforms.ToTensor()\<close> on a PIL image of an 8-bit mode: the byte tensor of shape
  (bands, height, width), then \<open>img.to(dtype=torch.float32).div(255)\<close>. A sample is a
  \<open>float32\<close> value as it is; the quotient is rounded.
\<close>

definition to_tensor :: "image \<Rightarrow> tensor" where
  "to_tensor img =
     \<lparr>shape = [num_bands (mode img), height img, width img],
      dtype = float32,
      item = (\<lambda>idx. case idx of
                 [c, y, x] \<Rightarrow> f32_div (Finite (real (unat (getpixel img x y c)))) (Finite 255)
               | _ \<Rightarrow> Finite 0)\<rparr>"

text \<open>
  \<open>transforms.Normalize(mean, std)\<close> wants a floating-point tensor with at least three
  dimensions, turns \<open>mean\<close> and \<open>std\<close> (lists of Python floats) into tensors of the
  input's dtype, and is \<open>tensor.sub_(mean.view(-1, 1, 1)).div_(std.view(-1, 1, 1))\<close> on a
  copy of the tensor: every entry is subtracted and divided in \<open>float32\<close>. The in-place
  operations raise unless \<open>mean\<close> and \<open>std\<close> have one entry per channel or a single entry.
\<close>

definition normalize :: "real list \<Rightarrow> real list \<Rightarrow> tensor \<Rightarrow> exn + tensor" where
  "normalize mean' std' t =
     (let n = length (shape t) in
      if dtype t \<noteq> float32 then
        Inl (Exception TypeError ''Input tensor should be a float tensor. Got torch.uint8.'')
      else if n < 3 then
        Inl (Exception ValueError ''Expected tensor to be a tensor image of size (..., C, H, W)'')
      else
        let mean_t = map to_f32 mean'; std_t = map to_f32 std' in
        if Finite 0 \<in> set std_t then
          Inl (Exception ValueError ''std evaluated to zero, leading to division by zero.'')
        else
          let channels = shape t ! (n - 3) in
          if (length mean_t \<noteq> channels \<and> length mean_t \<noteq> 1)
             \<or> (length std_t \<noteq> channels \<and> length std_t \<noteq> 1) then
            Inl (Exception RuntimeError ''output shape does not match the broadcast shape'')
          else
            Inr \<lparr>shape = shape t,
                 dtype = dtype t,
                 item = (\<lambda>idx.
                   let c = idx ! (n - 3) in
                   f32_div
                     (f32_sub (item t idx) (mean_t ! (if length mean_t = 1 then 0 else c)))
                     (std_t ! (if length std_t = 1 then 0 else c)))\<rparr>)"

text \<open>\<open>tensor.unsqueeze(0)\<close>.\<close>

definition unsqueeze0 :: "tensor \<Rightarrow> tensor" where
  "unsqueeze0 t =
     \<lparr>shape = 1 # shape t,
      dtype = dtype t,
      item = (\<lambda>idx. case idx of [] \<Rightarrow> Finite 0 | i # rest \<Rightarrow> item t rest)\<rparr>"

section \<open>ImageProcessor (backend/utils/image\_processor.py)\<close>

text \<open>
  The calls into PIL: \<open>Image.open\<close> on a byte stream and on a path, \<open>Image.convert\<close>, and
  \<open>Image.resize\<close>. An \<open>image\<close> is a decoded image, so \<open>Image\_open\<close> stands for opening
  and decoding together.
\<close>

record pil =
  Image_open :: "8 word list \<Rightarrow> exn + image"
  Image_open_path :: "string \<Rightarrow> exn + image"
  convert :: "image \<Rightarrow> pil_mode \<Rightarrow> exn + image"
  resample :: resampler

text \<open>
  \<open>self.transform = Compose([Resize(256), CenterCrop(224), ToTensor(),
  Normalize(mean=[0.485, 0.456, 0.406], std=[0.229, 0.224, 0.225])])\<close>, applied in order.
\<close>

definition mean :: "real list" where
  "mean = map py_float [0.485, 0.456, 0.406]"

definition std :: "real list" where
  "std = map py_float [0.229, 0.224, 0.225]"

definition transform :: "pil \<Rightarrow> image \<Rightarrow> exn + tensor" where
  "transform lib img =
     (case resize (resample lib) 256 img of
        Inl e \<Rightarrow> Inl e
      | Inr resized \<Rightarrow> normalize mean std (to_tensor (center_crop 224 resized)))"

definition load_image_from_bytes :: "pil \<Rightarrow> 8 word list \<Rightarrow> exn + image" where
  "load_image_from_bytes lib image_bytes =
     (case Image_open lib image_bytes of
        Inl e \<Rightarrow> Inl e
      | Inr img \<Rightarrow> if mode img \<noteq> RGB then convert lib img RGB else Inr img)"

definition load_image_from_path :: "pil \<Rightarrow> string \<Rightarrow> exn + image" where
  "load_image_from_path lib image_path =
     (case Image_open_path lib image_path of
        Inl e \<Rightarrow> Inl e
      | Inr img \<Rightarrow> if mode img \<noteq> RGB then convert lib img RGB else Inr img)"

definition preprocess_image :: "pil \<Rightarrow> image \<Rightarrow> exn + tensor" where
  "preprocess_image lib img =
     (case transform lib img of
        Inl e \<Rightarrow> Inl e
      | Inr image_tensor \<Rightarrow> Inr (unsqueeze0 image_tensor))"

definition process_from_bytes :: "pil \<Rightarrow> 8 word list \<Rightarrow> exn + tensor" where
  "process_from_bytes lib image_bytes =
     (case load_image_from_bytes lib image_bytes of
        Inl e \<Rightarrow> Inl e
      | Inr img \<Rightarrow> preprocess_image lib img)"

definition process_from_path :: "pil \<Rightarrow> string \<Rightarrow> exn + tensor" where
  "process_from_path lib image_path =
     (case load_image_from_path lib image_path of
        Inl e \<Rightarrow> Inl e
      | Inr img \<Rightarrow> preprocess_image lib img)"

section \<open>The calls into torch\<close>

text \<open>
  A loaded network is the function it computes: \<open>self.model(image_tensor)\<close> gives one row of
  class scores for each image of the batch, or raises. The scores, and the probabilities
  computed from them, are real numbers: how torch's kernels round them is not modelled.
\<close>

type_synonym module = "tensor \<Rightarrow> exn + real list list"

text \<open>
  \<open>mobilenet_v2 n\<close> and \<open>hub_load n\<close> are the outcomes of the call
  \<open>models.mobilenet_v2(weights=weights)\<close> and of \<open>torch.hub.load(...)\<close> when \<open>n\<close> such calls
  have been made before; \<open>topk xs k\<close> is what \<open>torch.topk(xs, k)\<close> selects when \<open>k\<close> is in
  range; \<open>categories\<close> is \<open>MobileNet_V2_Weights.DEFAULT.meta["categories"]\<close>, and
  \<open>imagenet_classes_txt\<close> the stripped lines of the file \<open>imagenet_classes.txt\<close>.
\<close>

record torch =
  mobilenet_v2 :: "nat \<Rightarrow> exn + module"
  hub_load :: "nat \<Rightarrow> exn + module"
  topk :: "real list \<Rightarrow> nat \<Rightarrow> real list \<times> nat list"
  categories :: "string list"
  imagenet_classes_txt :: "exn + string list"

text \<open>
  What torch documents of \<open>topk(xs, k)\<close> with \<open>largest=True, sorted=True\<close>: \<open>k\<close> distinct
  indices, their values in non-increasing order, no value left out that is larger than
  a selected one. Which of several equal values is selected, and in which order equal
  values are returned, is not part of it.
\<close>

definition is_topk :: "real list \<Rightarrow> nat \<Rightarrow> real list \<times> nat list \<Rightarrow> bool" where
  "is_topk xs k r =
     (case r of (vals, idxs) \<Rightarrow>
        length idxs = k \<and> distinct idxs \<and> (\<forall>i \<in> set idxs. i < length xs)
        \<and> vals = map (\<lambda>i. xs ! i) idxs
        \<and> sorted (rev vals)
        \<and> (\<forall>j \<in> {0..<length xs} - set idxs. \<forall>v \<in> set vals. xs ! j \<le> v))"

definition topk_contract :: "(real list \<Rightarrow> nat \<Rightarrow> real list \<times> nat list) \<Rightarrow> bool" where
  "topk_contract f = (\<forall>xs k. k \<le> length xs \<longrightarrow> is_topk xs k (f xs k))"

text \<open>\<open>torch.topk(xs, k)\<close> for a Python integer \<open>k\<close>: out of range, it raises.\<close>

definition torch_topk :: "torch \<Rightarrow> real list \<Rightarrow> int \<Rightarrow> exn + real list \<times> nat list" where
  "torch_topk lib xs k =
     (if k < 0 \<or> int (length xs) < k then
        Inl (Exception RuntimeError ''selected index k out of range'')
      else Inr (topk lib xs (nat k)))"

text \<open>
  \<open>torch.nn.functional.softmax(xs, dim=0)\<close> on a vector: the maximum is subtracted before
  exponentiating, as torch's kernel does.
\<close>

definition softmax :: "real list \<Rightarrow> real list" where
  "softmax xs =
     (let m = Max (set xs);
          es = map (\<lambda>x. exp (x - m)) xs;
          z = sum_list es
      in map (\<lambda>e. e / z) es)"

section \<open>ModelLoader (backend/models/model\_loader.py)\<close>

text \<open>
  The fields \<open>model\<close> and \<open>class_names\<close> of the object, and two counters of what it has done
  to the outside: how often \<open>models.mobilenet_v2\<close> has been called, and the tensors the
  network has been called on. \<open>self.device\<close>, \<open>model.eval()\<close> and \<open>.to(device)\<close> do not change
  what the network computes and are left out.
\<close>

record ModelLoader =
  model :: "module option"
  class_names :: "string list"
  instantiations :: nat
  invocations :: "tensor list"

definition ModelLoader_init :: "torch \<Rightarrow> ModelLoader" where
  "ModelLoader_init lib =
     \<lparr>model = None, class_names = categories lib, instantiations = 0, invocations = []\<rparr>"

definition load_model :: "torch \<Rightarrow> ModelLoader \<Rightarrow> (exn + unit) \<times> ModelLoader" where
  "load_model lib s =
     (if model s = None then
        (case mobilenet_v2 lib (instantiations s) of
           Inl e \<Rightarrow> (Inl e, s\<lparr>instantiations := Suc (instantiations s)\<rparr>)
         | Inr m \<Rightarrow>
             (Inr (), s\<lparr>model := Some m, instantiations := Suc (instantiations s)\<rparr>))
      else (Inr (), s))"

text \<open>
  The statements that \<open>predict\<close> and \<open>predict_top_k\<close> share, from
  \<open>if self.model is None: self.load_model()\<close> to
  \<open>probabilities = torch.nn.functional.softmax(outputs[0], dim=0)\<close>.
\<close>

definition probabilities :: "torch \<Rightarrow> ModelLoader \<Rightarrow> tensor \<Rightarrow> (exn + real list) \<times> ModelLoader" where
  "probabilities lib s image_tensor =
     (case (if model s = None then load_model lib s else (Inr (), s)) of
        (Inl e, s1) \<Rightarrow> (Inl e, s1)
      | (Inr u, s1) \<Rightarrow>
          (case model s1 of
             None \<Rightarrow>
               (Inl (Exception AttributeError ''NoneType object has no attribute eval''), s1)
           | Some m \<Rightarrow>
               let s2 = s1\<lparr>invocations := invocations s1 @ [image_tensor]\<rparr> in
               (case m image_tensor of
                  Inl e \<Rightarrow> (Inl e, s2)
                | Inr outputs \<Rightarrow>
                    (case outputs of
                       [] \<Rightarrow> (Inl (Exception IndexError ''index 0 is out of bounds''), s2)
                     | row # rest \<Rightarrow> (Inr (softmax row), s2)))))"

text \<open>The dictionary \<open>{"class_name": ..., "confidence": ...}\<close>.\<close>

record prediction =
  class_name :: string
  confidence :: real

definition predict :: "torch \<Rightarrow> ModelLoader \<Rightarrow> tensor \<Rightarrow> (exn + string \<times> real) \<times> ModelLoader" where
  "predict lib s image_tensor =
     (case probabilities lib s image_tensor of
        (Inl e, s') \<Rightarrow> (Inl e, s')
      | (Inr probs, s') \<Rightarrow>
          (case torch_topk lib probs 1 of
             Inl e \<Rightarrow> (Inl e, s')
           | Inr (top_prob, top_cls) \<Rightarrow>
               (case top_cls of
                  [c] \<Rightarrow>
                    if c < length (class_names s') then
                      (case top_prob of
                         [p] \<Rightarrow> (Inr (class_names s' ! c, p), s')
                       | _ \<Rightarrow> (Inl (Exception RuntimeError
                                 ''a Tensor with several elements cannot be converted to Scalar''), s'))
                    else (Inl (Exception IndexError ''list index out of range''), s')
                | _ \<Rightarrow> (Inl (Exception RuntimeError
                          ''a Tensor with several elements cannot be converted to Scalar''), s'))))"

text \<open>
  The loop \<open>for i in range(k)\<close> of \<open>predict_top_k\<close>, over the indices still to visit:
  \<open>class_names[top_classes[i].item()]\<close>, then \<open>top_probs[i].item()\<close>, then \<open>results.append\<close>.
\<close>

fun results_loop ::
  "string list \<Rightarrow> real list \<Rightarrow> nat list \<Rightarrow> nat list \<Rightarrow> prediction list \<Rightarrow> exn + prediction list"
where
  "results_loop names top_probs top_classes [] results = Inr results"
| "results_loop names top_probs top_classes (i # is) results =
     (if length top_classes \<le> i then
        Inl (Exception IndexError ''index out of bounds'')
      else if length names \<le> top_classes ! i then
        Inl (Exception IndexError ''list index out of range'')
      else if length top_probs \<le> i then
        Inl (Exception IndexError ''index out of bounds'')
      else results_loop names top_probs top_classes is
             (results @ [\<lparr>class_name = names ! (top_classes ! i), confidence = top_probs ! i\<rparr>]))"

definition predict_top_k ::
  "torch \<Rightarrow> ModelLoader \<Rightarrow> tensor \<Rightarrow> int \<Rightarrow> (exn + prediction list) \<times> ModelLoader"
where
  "predict_top_k lib s image_tensor k =
     (case probabilities lib s image_tensor of
        (Inl e, s') \<Rightarrow> (Inl e, s')
      | (Inr probs, s') \<Rightarrow>
          (case torch_topk lib probs k of
             Inl e \<Rightarrow> (Inl e, s')
           | Inr (top_probs, top_classes) \<Rightarrow>
               (results_loop (class_names s') top_probs top_classes [0..<nat k] [], s')))"

section \<open>POST /classify (backend/app/main.py)\<close>

text \<open>
  \<open>round(x, ndigits)\<close> on the reals: the nearest multiple of \<open>10 ** -ndigits\<close>, a tie
  going to the even one.
\<close>

definition py_round :: "real \<Rightarrow> nat \<Rightarrow> real" where
  "py_round x ndigits = of_int (half_even (x * 10 ^ ndigits)) / 10 ^ ndigits"

record upload =
  filename :: string
  contents :: "8 word list"

datatype http_exception = HTTPException nat string

fun status_code :: "http_exception \<Rightarrow> nat" where
  "status_code (HTTPException code d) = code"

fun detail :: "http_exception \<Rightarrow> string" where
  "detail (HTTPException code d) = d"

record classify_response =
  success :: bool
  response_filename :: string
  response_prediction :: prediction
  top_k :: "prediction list"

text \<open>The fixed texts of the messages, as their UTF-8 bytes.\<close>

definition text_unsupported_format :: string where
  "text_unsupported_format =
    [CHR 0xE4, CHR 0xB8, CHR 0x8D, CHR 0xE6, CHR 0x94, CHR 0xAF, CHR 0xE6, CHR 0x8C,
     CHR 0x81, CHR 0xE7, CHR 0x9A, CHR 0x84, CHR 0xE6, CHR 0x96, CHR 0x87, CHR 0xE4,
     CHR 0xBB, CHR 0xB6, CHR 0xE6, CHR 0xA0, CHR 0xBC, CHR 0xE5, CHR 0xBC, CHR 0x8F]"

definition text_supported_formats :: string where
  "text_supported_formats =
    [CHR 0xE3, CHR 0x80, CHR 0x82, CHR 0xE6, CHR 0x94, CHR 0xAF, CHR 0xE6, CHR 0x8C,
     CHR 0x81, CHR 0xE7, CHR 0x9A, CHR 0x84, CHR 0xE6, CHR 0xA0, CHR 0xBC, CHR 0xE5,
     CHR 0xBC, CHR 0x8F]"

definition text_processing_failed :: string where
  "text_processing_failed =
    [CHR 0xE5, CHR 0x9B, CHR 0xBE, CHR 0xE5, CHR 0x83, CHR 0x8F, CHR 0xE5, CHR 0xA4,
     CHR 0x84, CHR 0xE7, CHR 0x90, CHR 0x86, CHR 0xE5, CHR 0xA4, CHR 0xB1, CHR 0xE8,
     CHR 0xB4, CHR 0xA5]"

text \<open>
  The handler. \<open>order\<close> is the order in which \<open>', '.join(allowed_extensions)\<close> happens to
  iterate over the set.
\<close>

definition classify_image ::
  "string list \<Rightarrow> pil \<Rightarrow> torch \<Rightarrow> ModelLoader \<Rightarrow> upload
     \<Rightarrow> (http_exception + classify_response) \<times> ModelLoader"
where
  "classify_image order plib tlib s file =
     (if file_ext (filename file) \<notin> allowed_extensions then
        (Inl (HTTPException 400
           (text_unsupported_format @ '': '' @ file_ext (filename file)
              @ text_supported_formats @ '': '' @ join '', '' order)), s)
      else
        (case process_from_bytes plib (contents file) of
           Inl e \<Rightarrow> (Inl (HTTPException 500 (text_processing_failed @ '': '' @ str e)), s)
         | Inr image_tensor \<Rightarrow>
             (case predict tlib s image_tensor of
                (Inl e, s1) \<Rightarrow>
                  (Inl (HTTPException 500 (text_processing_failed @ '': '' @ str e)), s1)
              | (Inr (name, conf), s1) \<Rightarrow>
                  (case predict_top_k tlib s1 image_tensor 5 of
                     (Inl e, s2) \<Rightarrow>
                       (Inl (HTTPException 500 (text_processing_failed @ '': '' @ str e)), s2)
                   | (Inr top_k_results, s2) \<Rightarrow>
                       (Inr \<lparr>success = True,
                             response_filename = filename file,
                             response_prediction =
                               \<lparr>class_name = name, confidence = py_round conf 4\<rparr>,
                             top_k = map (\<lambda>result.
                               \<lparr>class_name = class_name result,
                                confidence = py_round (confidence result) 4\<rparr>) top_k_results\<rparr>,
                        s2)))))"

section \<open>The second pipeline (backend/model.py, backend/main.py)\<close>

text \<open>
  An \<open>ImageClassifier\<close> holds the network that \<open>_load_model\<close> fetched; its \<open>preprocess\<close> is
  the same composition of transforms as above. The module keeps the instance in the
  global \<open>_classifier_instance\<close>; \<open>hub_loads\<close> counts the calls of \<open>torch.hub.load\<close>.
\<close>

record ImageClassifier =
  classifier_model :: module

record model_py =
  classifier_instance :: "ImageClassifier option"
  hub_loads :: nat

definition ImageClassifier_init :: "torch \<Rightarrow> model_py \<Rightarrow> (exn + ImageClassifier) \<times> model_py" where
  "ImageClassifier_init lib g =
     (case hub_load lib (hub_loads g) of
        Inl e \<Rightarrow> (Inl e, g\<lparr>hub_loads := Suc (hub_loads g)\<rparr>)
      | Inr m \<Rightarrow> (Inr \<lparr>classifier_model = m\<rparr>, g\<lparr>hub_loads := Suc (hub_loads g)\<rparr>))"

definition get_classifier :: "torch \<Rightarrow> model_py \<Rightarrow> (exn + ImageClassifier) \<times> model_py" where
  "get_classifier lib g =
     (case classifier_instance g of
        None \<Rightarrow>
          (case ImageClassifier_init lib g of
             (Inl e, g1) \<Rightarrow> (Inl e, g1)
           | (Inr c, g1) \<Rightarrow> (Inr c, g1\<lparr>classifier_instance := Some c\<rparr>))
      | Some c \<Rightarrow> (Inr c, g))"

text \<open>The dictionary that \<open>ImageClassifier.predict\<close> returns; its entries have the keys
  \<open>'class'\<close> and \<open>'confidence'\<close>.\<close>

record predict_response =
  predictions :: "prediction list"
  top_prediction :: prediction

definition classifier_predict ::
  "pil \<Rightarrow> torch \<Rightarrow> ImageClassifier \<Rightarrow> 8 word list \<Rightarrow> exn + predict_response"
where
  "classifier_predict plib tlib c image_bytes =
     (case Image_open plib image_bytes of
        Inl e \<Rightarrow> Inl e
      | Inr opened \<Rightarrow>
     (case convert plib opened RGB of
        Inl e \<Rightarrow> Inl e
      | Inr img \<Rightarrow>
     (case transform plib img of
        Inl e \<Rightarrow> Inl e
      | Inr input_tensor \<Rightarrow>
     (case classifier_model c (unsqueeze0 input_tensor) of
        Inl e \<Rightarrow> Inl e
      | Inr output \<Rightarrow>
     (case output of
        [] \<Rightarrow> Inl (Exception IndexError ''index 0 is out of bounds'')
      | row # rest \<Rightarrow>
     (case imagenet_classes_txt tlib of
        Inl e \<Rightarrow> Inl e
      | Inr cats \<Rightarrow>
     (case torch_topk tlib (softmax row) 5 of
        Inl e \<Rightarrow> Inl e
      | Inr (top5_prob, top5_catid) \<Rightarrow>
     (case results_loop cats top5_prob top5_catid [0..<length top5_prob] [] of
        Inl e \<Rightarrow> Inl e
      | Inr results \<Rightarrow>
     (case results of
        [] \<Rightarrow> Inl (Exception IndexError ''index 0 is out of bounds'')
      | first # others \<Rightarrow>
          Inr \<lparr>predictions = results, top_prediction = first\<rparr>)))))))))"

definition text_unsupported_type :: string where
  "text_unsupported_type =
    [CHR 0xE4, CHR 0xB8, CHR 0x8D, CHR 0xE6, CHR 0x94, CHR 0xAF, CHR 0xE6, CHR 0x8C,
     CHR 0x81, CHR 0xE7, CHR 0x9A, CHR 0x84, CHR 0xE6, CHR 0x96, CHR 0x87, CHR 0xE4,
     CHR 0xBB, CHR 0xB6, CHR 0xE7, CHR 0xB1, CHR 0xBB, CHR 0xE5, CHR 0x9E, CHR 0x8B,
     CHR 0xE3, CHR 0x80, CHR 0x82, CHR 0xE8, CHR 0xAF, CHR 0xB7, CHR 0xE4, CHR 0xB8,
     CHR 0x8A, CHR 0xE4, CHR 0xBC, CHR 0xA0, CHR 0xE5, CHR 0x9B, CHR 0xBE, CHR 0xE7,
     CHR 0x89, CHR 0x87, CHR 0xE6, CHR 0x96, CHR 0x87, CHR 0xE4, CHR 0xBB, CHR 0xB6,
     CHR 0xEF, CHR 0xBC, CHR 0x88]
    @ ''jpg, jpeg, png, bmp, gif, webp'' @
    [CHR 0xEF, CHR 0xBC, CHR 0x89]"

definition text_classification_failed :: string where
  "text_classification_failed =
    [CHR 0xE5, CHR 0x9B, CHR 0xBE, CHR 0xE5, CHR 0x83, CHR 0x8F, CHR 0xE5, CHR 0x88,
     CHR 0x86, CHR 0xE7, CHR 0xB1, CHR 0xBB, CHR 0xE5, CHR 0xA4, CHR 0xB1, CHR 0xE8,
     CHR 0xB4, CHR 0xA5]"

definition predict_image ::
  "pil \<Rightarrow> torch \<Rightarrow> model_py \<Rightarrow> upload \<Rightarrow> (http_exception + predict_response) \<times> model_py"
where
  "predict_image plib tlib g file =
     (if \<not> validate_file_type (filename file) then
        (Inl (HTTPException 400 text_unsupported_type), g)
      else
        (case get_classifier tlib g of
           (Inl e, g1) \<Rightarrow>
             (Inl (HTTPException 500 (text_classification_failed @ '': '' @ str e)), g1)
         | (Inr classifier, g1) \<Rightarrow>
             (case classifier_predict plib tlib classifier (contents file) of
                Inl e \<Rightarrow>
                  (Inl (HTTPException 500 (text_classification_failed @ '': '' @ str e)), g1)
              | Inr result \<Rightarrow> (Inr result, g1))))"

section \<open>Repeated calls\<close>

text \<open>
  \<open>n\<close> calls of \<open>load_model\<close>, and of \<open>get_classifier\<close>, one after the other, whatever
  each of them returns.
\<close>

fun load_times :: "torch \<Rightarrow> nat \<Rightarrow> ModelLoader \<Rightarrow> ModelLoader" where
  "load_times lib 0 s = s"
| "load_times lib (Suc n) s = load_times lib n (snd (load_model lib s))"

fun get_times :: "torch \<Rightarrow> nat \<Rightarrow> model_py \<Rightarrow> model_py" where
  "get_times lib 0 g = g"
| "get_times lib (Suc n) g = get_times lib n (snd (get_classifier lib g))"

text \<open>The module \<open>backend/model.py\<close> when it has just been imported.\<close>

definition model_py_init :: model_py where
  "model_py_init = \<lparr>classifier_instance = None, hub_loads = 0\<rparr>"

text \<open>
  The status of the HTTP response: the code of the \<open>HTTPException\<close>, or 200 when the
  handler returns.
\<close>

definition http_status :: "http_exception + 'a \<Rightarrow> nat" where
  "http_status r = (case r of Inl e \<Rightarrow> status_code e | Inr x \<Rightarrow> 200)"

section \<open>Example inputs\<close>

text \<open>
  A nearest-neighbour filter standing for PIL's \<open>Image.resize\<close>, which refuses a side
  that does not fit a C \<open>int\<close> as PIL does; four images; and a PIL whose \<open>convert\<close> copies
  the first band.
\<close>

definition nearest :: resampler where
  "nearest img w h =
     (if 2147483647 < w \<or> 2147483647 < h
      then Inl (Exception OverflowError ''Python int too large to convert to C int'')
      else Inr (\<lambda>x y b. getpixel img (x * width img div w) (y * height img div h) b))"

definition gray_image :: image where
  "gray_image = \<lparr>mode = L, width = 300, height = 200, getpixel = (\<lambda>x y b. 128)\<rparr>"

definition red_image :: image where
  "red_image = \<lparr>mode = RGB, width = 300, height = 200, getpixel = (\<lambda>x y b. if b = 0 then 255 else 0)\<rparr>"

definition black_image :: image where
  "black_image = \<lparr>mode = RGB, width = 300, height = 200, getpixel = (\<lambda>x y b. 0)\<rparr>"

definition tall_image :: image where
  "tall_image = \<lparr>mode = RGB, width = 1, height = 9000000, getpixel = (\<lambda>x y b. 0)\<rparr>"

definition example_pil :: pil where
  "example_pil =
     \<lparr>Image_open = (\<lambda>b. if b = [] then Inl (Exception UnidentifiedImageError ''cannot identify image file'')
                          else Inr red_image),
      Image_open_path = (\<lambda>p. Inl (Exception FileNotFoundError ''No such file or directory'')),
      convert = (\<lambda>img m. Inr \<lparr>mode = m, width = width img, height = height img,
                                 getpixel = (\<lambda>x y b. getpixel img x y 0)\<rparr>),
      resample = nearest\<rparr>"

section \<open>torch.topk on the CPU\<close>

text \<open>
  torch's CPU kernel for \<open>topk\<close> (\<open>aten/src/ATen/native/cpu/TopKImpl.h\<close>) pairs every
  value with its index in a queue and, when \<open>k * 64 \<le> n\<close>, sorts the queue with
  \<open>std::partial_sort\<close> under the comparator \<open>x.first > y.first\<close>; the first \<open>k\<close> pairs are
  the result. The functions below are \<open>partial_sort\<close> as libstdc++ has it
  (\<open>bits/stl\_algo.h\<close>, \<open>bits/stl\_heap.h\<close>), on a list in place of the iterator range:
  \<open>first\<close> is index 0, and \<open>middle\<close> and \<open>last\<close> are indices. For a larger \<open>k\<close> the kernel
  selects with \<open>std::nth\_element\<close>, which is not modelled: \<open>topk\_partial\_sort\<close> is the
  kernel for \<open>k * 64 \<le> n\<close> only.
\<close>

type_synonym elem = "real \<times> nat"

text \<open>The comparator of the kernel for \<open>largest=True\<close>; a real number is never NaN.\<close>

definition topk_cmp :: "elem \<Rightarrow> elem \<Rightarrow> bool" where
  "topk_cmp x y = (fst x > fst y)"

text \<open>\<open>std::__push_heap\<close>.\<close>

function push_heap :: "elem list \<Rightarrow> nat \<Rightarrow> nat \<Rightarrow> elem \<Rightarrow> elem list" where
  "push_heap a holeIndex topIndex v =
     (let parent = (holeIndex - 1) div 2
      in if holeIndex > topIndex \<and> topk_cmp (a ! parent) v
         then push_heap (a[holeIndex := a ! parent]) parent topIndex v
         else a[holeIndex := v])"
  by pat_completeness auto
termination
  by (relation "measure (\<lambda>(a, holeIndex, topIndex, v). holeIndex)") auto

text \<open>\<open>std::__adjust_heap\<close>: its loop, then the step for a last node with one child.\<close>

function adjust_heap_loop :: "elem list \<Rightarrow> nat \<Rightarrow> nat \<Rightarrow> nat \<Rightarrow> elem list \<times> nat \<times> nat" where
  "adjust_heap_loop a holeIndex secondChild len =
     (if secondChild < (len - 1) div 2 then
        let c = 2 * (secondChild + 1);
            c' = (if topk_cmp (a ! c) (a ! (c - 1)) then c - 1 else c)
        in adjust_heap_loop (a[holeIndex := a ! c']) c' c' len
      else (a, holeIndex, secondChild))"
  by pat_completeness auto
termination
  by (relation "measure (\<lambda>(a, holeIndex, secondChild, len). (len - 1) div 2 - secondChild)") auto

definition adjust_heap :: "elem list \<Rightarrow> nat \<Rightarrow> nat \<Rightarrow> elem \<Rightarrow> elem list" where
  "adjust_heap a holeIndex len v =
     (case adjust_heap_loop a holeIndex holeIndex len of
        (a1, hole1, second1) \<Rightarrow>
          if even len \<and> second1 = (len - 2) div 2 then
            let c = 2 * (second1 + 1)
            in push_heap (a1[hole1 := a1 ! (c - 1)]) (c - 1) holeIndex v
          else push_heap a1 hole1 holeIndex v)"

text \<open>\<open>std::__make_heap\<close>.\<close>

function make_heap_loop :: "elem list \<Rightarrow> nat \<Rightarrow> nat \<Rightarrow> elem list" where
  "make_heap_loop a len parent =
     (let a' = adjust_heap a parent len (a ! parent)
      in if parent = 0 then a' else make_heap_loop a' len (parent - 1))"
  by pat_completeness auto
termination
  by (relation "measure (\<lambda>(a, len, parent). parent)") auto

definition make_heap :: "elem list \<Rightarrow> nat \<Rightarrow> elem list" where
  "make_heap a last' = (if last' < 2 then a else make_heap_loop a last' ((last' - 2) div 2))"

text \<open>\<open>std::__pop_heap\<close>.\<close>

definition pop_heap :: "elem list \<Rightarrow> nat \<Rightarrow> nat \<Rightarrow> elem list" where
  "pop_heap a last' result = adjust_heap (a[result := a ! 0]) 0 last' (a ! result)"

text \<open>\<open>std::__heap_select\<close>.\<close>

definition heap_select :: "elem list \<Rightarrow> nat \<Rightarrow> elem list" where
  "heap_select a middle =
     fold (\<lambda>i a. if topk_cmp (a ! i) (a ! 0) then pop_heap a middle i else a)
       [middle..<length a] (make_heap a middle)"

text \<open>\<open>std::__sort_heap\<close>.\<close>

function sort_heap :: "elem list \<Rightarrow> nat \<Rightarrow> elem list" where
  "sort_heap a last' = (if 1 < last' then sort_heap (pop_heap a (last' - 1) (last' - 1)) (last' - 1) else a)"
  by pat_completeness auto
termination
  by (relation "measure (\<lambda>(a, last'). last')") auto

text \<open>\<open>std::partial_sort\<close>.\<close>

definition partial_sort :: "elem list \<Rightarrow> nat \<Rightarrow> elem list" where
  "partial_sort a middle = sort_heap (heap_select a middle) middle"

text \<open>The kernel: the queue of pairs, the partial sort, the first \<open>k\<close> pairs.\<close>

definition topk_partial_sort :: "real list \<Rightarrow> nat \<Rightarrow> real list \<times> nat list" where
  "topk_partial_sort xs k =
     (let queue = partial_sort (zip xs [0..<length xs]) k
      in (map fst (take k queue), map snd (take k queue)))"

section \<open>Example libraries\<close>

text \<open>
  A selection that meets what torch documents of \<open>topk\<close>: it sorts the pairs of value
  and index by descending value with a stable sort, so equal values come out with the
  lower index first.
\<close>

definition topk_of :: "(real \<times> nat) list \<Rightarrow> nat \<Rightarrow> real list \<times> nat list" where
  "topk_of ps k = (let top = take k (sort_key (\<lambda>p. - fst p) ps) in (map fst top, map snd top))"

definition topk_first :: "real list \<Rightarrow> nat \<Rightarrow> real list \<times> nat list" where
  "topk_first xs k = topk_of (zip xs [0..<length xs]) k"

text \<open>
  A network that gives every class the score 0 on every input, the category names
  \<open>class_0\<close> to \<open>class_999\<close>, and three torch libraries: one whose \<open>topk\<close> is the stable
  selection, one whose \<open>topk\<close> is the CPU kernel, and one whose first instantiation of
  the network fails (the download of the weights, say) while every later one succeeds.
\<close>

definition uniform_model :: module where
  "uniform_model image_tensor = Inr [replicate 1000 0]"

function str_nat :: "nat \<Rightarrow> string" where
  "str_nat n =
     (if n < 10 then [''0123456789'' ! n]
      else str_nat (n div 10) @ [''0123456789'' ! (n mod 10)])"
  by pat_completeness auto
termination
  by (relation "measure (\<lambda>n. n)") auto

definition example_categories :: "string list" where
  "example_categories = map (\<lambda>i. ''class_'' @ str_nat i) [0..<1000]"

definition example_torch :: torch where
  "example_torch =
     \<lparr>mobilenet_v2 = (\<lambda>n. Inr uniform_model),
      hub_load = (\<lambda>n. Inr uniform_model),
      topk = topk_first,
      categories = example_categories,
      imagenet_classes_txt = Inr example_categories\<rparr>"

definition cpu_torch :: torch where
  "cpu_torch = example_torch\<lparr>topk := topk_partial_sort\<rparr>"

definition flaky_torch :: torch where
  "flaky_torch =
     example_torch
       \<lparr>mobilenet_v2 :=
          (\<lambda>n. if n = 0 then Inl (Exception OSError ''Network is unreachable'')
               else Inr uniform_model),
        hub_load :=
          (\<lambda>n. if n = 0 then Inl (Exception OSError ''Network is unreachable'')
               else Inr uniform_model)\<rparr>"

definition example_tensor :: tensor where
  "example_tensor = \<lparr>shape = [1, 3, 224, 224], dtype = float32, item = (\<lambda>idx. Finite 0)\<rparr>"


definition example_upload :: upload where
  "example_upload = \<lparr>filename = ''test_image.jpg'', contents = [255, 216, 255]\<rparr>"

text \<open>
  An order in which the set of extensions may be iterated, and three uploads: a text
  file, and two files whose names are nothing but an extension.
\<close>

definition example_order :: "string list" where
  "example_order = [''.png'', ''.webp'', ''.jpg'', ''.gif'', ''.jpeg'', ''.bmp'']"

definition txt_upload :: upload where
  "txt_upload = \<lparr>filename = ''test_file.txt'', contents = [105, 110, 118]\<rparr>"

definition dot_jpg_upload :: upload where
  "dot_jpg_upload = \<lparr>filename = ''.jpg'', contents = [255, 216, 255]\<rparr>"

definition dot_png_upload :: upload where
  "dot_png_upload = \<lparr>filename = ''.png'', contents = [137, 80, 78, 71]\<rparr>"

section \<open>Rounding to the nearest integer\<close>

lemma half_even_bounds: "\<lfloor>y\<rfloor> \<le> half_even y \<and> half_even y \<le> \<lfloor>y\<rfloor> + 1"
  by (simp add: half_even_def Let_def)

lemma half_even_mono:
  assumes "a \<le> b"
  shows "half_even a \<le> half_even b"
proof (cases "\<lfloor>a\<rfloor> = \<lfloor>b\<rfloor>")
  case True
  have "a - of_int \<lfloor>a\<rfloor> \<le> b - of_int \<lfloor>b\<rfloor>" using assms True by simp
  then show ?thesis using True by (auto simp: half_even_def Let_def)
next
  case False
  have "\<lfloor>a\<rfloor> \<le> \<lfloor>b\<rfloor>" using assms by (rule floor_mono)
  with False have "\<lfloor>a\<rfloor> + 1 \<le> \<lfloor>b\<rfloor>" by simp
  then show ?thesis using half_even_bounds[of a] half_even_bounds[of b] by linarith
qed

lemma half_even_close: "\<bar>of_int (half_even y) - y\<bar> \<le> 1 / 2"
proof -
  have "of_int \<lfloor>y\<rfloor> \<le> y" "y < of_int \<lfloor>y\<rfloor> + 1" by linarith+
  then show ?thesis by (auto simp: half_even_def Let_def abs_le_iff)
qed

section \<open>Rounding to a floating-point number\<close>

text \<open>
  Rounding moves a number by half a unit in the last place at most, which is a crude
  bound away from it for every format of 11 bits or more.
\<close>

lemma round_to_close:
  assumes "11 \<le> p" "emin \<le> 0"
  shows "\<bar>round_to p emin x - x\<bar> \<le> (\<bar>x\<bar> + 1) / 2048"
proof -
  define e where "e = (if \<bar>x\<bar> < 2 powr of_int emin then emin else \<lfloor>log 2 \<bar>x\<bar>\<rfloor>)"
  define u :: real where "u = 2 powr of_int (e - int p + 1)"
  have u0: "0 < u" by (simp add: u_def)
  have r: "round_to p emin x = of_int (half_even (x / u)) * u"
    by (simp add: round_to_def Let_def e_def u_def)
  have "round_to p emin x - x = (of_int (half_even (x / u)) - x / u) * u"
    using u0 by (simp add: r algebra_simps)
  then have "\<bar>round_to p emin x - x\<bar> = \<bar>of_int (half_even (x / u)) - x / u\<bar> * u"
    using u0 by (simp add: abs_mult)
  also have "\<dots> \<le> (1 / 2) * u"
    using half_even_close[of "x / u"] u0 by (intro mult_right_mono) simp_all
  finally have 1: "\<bar>round_to p emin x - x\<bar> \<le> u / 2" by simp
  have ten: "(2::real) powr (- 10) = 1 / 1024"
    by (simp add: powr_minus_divide)
  have 2: "u \<le> (\<bar>x\<bar> + 1) / 1024"
  proof (cases "\<bar>x\<bar> < 2 powr of_int emin")
    case True
    then have "u = 2 powr of_int (emin - int p + 1)" by (simp add: u_def e_def)
    also have "\<dots> \<le> 2 powr (- 10)" using assms by (intro powr_mono) simp_all
    finally have "u \<le> 1 / 1024" by (simp only: ten)
    then show ?thesis by simp
  next
    case False
    then have "2 powr of_int emin \<le> \<bar>x\<bar>" by simp
    moreover have "(0::real) < 2 powr of_int emin" by simp
    ultimately have xp: "0 < \<bar>x\<bar>" by linarith
    have e: "e = \<lfloor>log 2 \<bar>x\<bar>\<rfloor>" using False by (simp add: e_def)
    have "2 powr of_int e \<le> 2 powr log 2 \<bar>x\<bar>" unfolding e by (intro powr_mono) simp_all
    then have le: "2 powr of_int e \<le> \<bar>x\<bar>" using xp by simp
    have "of_int (e - int p + 1) = of_int e + (of_int (1 - int p) :: real)" by simp
    then have "u = 2 powr of_int e * 2 powr of_int (1 - int p)"
      unfolding u_def by (simp only: powr_add)
    also have "\<dots> \<le> \<bar>x\<bar> * 2 powr (- 10)"
      using assms le by (intro mult_mono powr_mono) simp_all
    finally have "u \<le> \<bar>x\<bar> / 1024" by (simp add: ten)
    then show ?thesis by simp
  qed
  show ?thesis using 1 2 by simp
qed

lemma py_float_close: "\<bar>py_float x - x\<bar> \<le> (\<bar>x\<bar> + 1) / 2048"
  unfolding py_float_def by (rule round_to_close) simp_all

lemma f32_max_large: "1001 \<le> f32_max"
  by (simp add: f32_max_def)

text \<open>A number of moderate size rounds to a finite \<open>float32\<close> close to it.\<close>

lemma to_f32_Finite:
  assumes "\<bar>x\<bar> \<le> 1000"
  shows "\<exists>q. to_f32 x = Finite q \<and> \<bar>q - x\<bar> \<le> (\<bar>x\<bar> + 1) / 2048"
proof -
  let ?q = "round_to 24 (- 126) x"
  have c: "\<bar>?q - x\<bar> \<le> (\<bar>x\<bar> + 1) / 2048" by (rule round_to_close) simp_all
  then have "- 1001 \<le> ?q \<and> ?q \<le> 1001" using assms by (simp add: abs_le_iff abs_if split: if_splits)
  then have "\<not> f32_max < ?q" "\<not> ?q < - f32_max" using f32_max_large by linarith+
  then have "to_f32 x = Finite ?q" by (simp add: to_f32_def Let_def)
  then show ?thesis using c by blast
qed

section \<open>The steps of the normalization pipeline\<close>

lemma resize_ok:
  assumes "resize rs 256 img = Inr r"
  shows "mode r = mode img \<and> 256 \<le> width r \<and> 256 \<le> height r"
proof -
  let ?w = "width img" and ?h = "height img"
  have pos: "0 < ?w" "0 < ?h"
    using assms by (auto simp: resize_def Let_def split: if_splits)
  have a: "256 \<le> 256 * ?h div ?w" if "?w \<le> ?h"
  proof -
    have "256 * ?w div ?w \<le> 256 * ?h div ?w" using that by (intro div_le_mono) simp
    then show ?thesis using pos by simp
  qed
  have b: "256 \<le> 256 * ?w div ?h" if "?h \<le> ?w"
  proof -
    have "256 * ?h div ?h \<le> 256 * ?w div ?h" using that by (intro div_le_mono) simp
    then show ?thesis using pos by simp
  qed
  show ?thesis using assms pos a b
    by (auto simp: resize_def Let_def split: if_splits sum.splits)
qed

lemma center_crop_ok:
  assumes "224 \<le> width r" "224 \<le> height r"
  shows "width (center_crop 224 r) = 224" "height (center_crop 224 r) = 224" "mode (center_crop 224 r) = mode r"
  using assms by (simp_all add: center_crop_def Let_def crop_def)

lemma sample_unit: "0 \<le> real (unat (w :: 8 word)) / 255 \<and> real (unat w) / 255 \<le> 1"
proof -
  have "unat w < 2 ^ LENGTH(8)" by (rule unsigned_less)
  then have "unat w \<le> 255" by simp
  then have "real (unat w) \<le> real 255" by (rule of_nat_mono)
  moreover have "0 \<le> real (unat w)" by (rule of_nat_0_le_iff)
  ultimately show ?thesis by simp
qed

text \<open>An entry of \<open>ToTensor\<close>'s result is a number close to the unit interval.\<close>

lemma to_tensor_entry: "\<exists>v. item (to_tensor img) [c, y, x] = Finite v \<and> \<bar>v\<bar> \<le> 2"
proof -
  let ?s = "real (unat (getpixel img x y c)) / 255"
  have u: "0 \<le> ?s \<and> ?s \<le> 1" by (rule sample_unit)
  then have "\<bar>?s\<bar> \<le> 1000" by simp
  from to_f32_Finite[OF this] obtain q where
    q: "to_f32 ?s = Finite q" "\<bar>q - ?s\<bar> \<le> (\<bar>?s\<bar> + 1) / 2048" by blast
  have "- 2 \<le> q \<and> q \<le> 2" using q(2) u by (simp add: abs_le_iff abs_if split: if_splits)
  then have "\<bar>q\<bar> \<le> 2" by (simp add: abs_le_iff)
  moreover have "item (to_tensor img) [c, y, x] = Finite q"
    using q(1) by (simp add: to_tensor_def)
  ultimately show ?thesis by blast
qed

text \<open>
  A decimal literal between 0 and 1/2 arrives in a \<open>float32\<close> tensor within 1/500 of
  itself: a coarse bound on the two roundings, to double and to \<open>float32\<close>.
\<close>

lemma literal_f32:
  assumes "0 \<le> d" "d \<le> 1 / 2"
  shows "\<exists>m. to_f32 (py_float d) = Finite m \<and> d - 1 / 500 \<le> m \<and> m \<le> d + 1 / 500"
proof -
  let ?p = "py_float d"
  have p: "\<bar>?p - d\<bar> \<le> (\<bar>d\<bar> + 1) / 2048" by (rule py_float_close)
  then have pb: "d - 3 / 4096 \<le> ?p \<and> ?p \<le> d + 3 / 4096"
    using assms by (simp add: abs_le_iff abs_if split: if_splits)
  then have "\<bar>?p\<bar> \<le> 1" using assms by (simp add: abs_le_iff)
  then have "\<bar>?p\<bar> \<le> 1000" by simp
  from to_f32_Finite[OF this] obtain m where
    m: "to_f32 ?p = Finite m" "\<bar>m - ?p\<bar> \<le> (\<bar>?p\<bar> + 1) / 2048" by blast
  have "\<bar>m - ?p\<bar> \<le> 1 / 1024" using m(2) \<open>\<bar>?p\<bar> \<le> 1\<close> by simp
  then have "d - 1 / 500 \<le> m \<and> m \<le> d + 1 / 500"
    using pb unfolding abs_le_iff by auto
  then show ?thesis using m(1) by blast
qed

lemma mean_f32:
  assumes "c < 3"
  shows "\<exists>m. map to_f32 mean ! c = Finite m \<and> \<bar>m\<bar> \<le> 1"
proof -
  let ?ds = "[0.485, 0.456, 0.406] :: real list"
  have d: "?ds ! c \<in> set ?ds" using assms by (intro nth_mem) simp
  then have "0 \<le> ?ds ! c" "?ds ! c \<le> 1 / 2" by auto
  from literal_f32[OF this] obtain m where
    m: "to_f32 (py_float (?ds ! c)) = Finite m" "?ds ! c - 1 / 500 \<le> m" "m \<le> ?ds ! c + 1 / 500"
    by blast
  have "\<bar>m\<bar> \<le> 1" using m(2,3) \<open>0 \<le> ?ds ! c\<close> \<open>?ds ! c \<le> 1 / 2\<close> by (simp add: abs_le_iff)
  moreover have "mean ! c = py_float (?ds ! c)"
    unfolding mean_def using assms by (intro nth_map) simp
  moreover have "map to_f32 mean ! c = to_f32 (mean ! c)"
    using assms by (intro nth_map) (simp add: mean_def)
  ultimately show ?thesis using m(1) by simp
qed

lemma std_literal:
  assumes "d \<in> set [0.229, 0.224, 0.225]"
  shows "\<exists>s. to_f32 (py_float d) = Finite s \<and> 1 / 5 \<le> s \<and> s \<le> 1"
proof -
  have b: "0 \<le> d" "d \<le> 1 / 2" "0.224 \<le> d" using assms by auto
  from literal_f32[OF b(1,2)] obtain s where
    s: "to_f32 (py_float d) = Finite s" "d - 1 / 500 \<le> s" "s \<le> d + 1 / 500"
    by blast
  have "1 / 5 \<le> s \<and> s \<le> 1" using s(2,3) b by simp
  then show ?thesis using s(1) by blast
qed

lemma std_f32:
  assumes "c < 3"
  shows "\<exists>s. map to_f32 std ! c = Finite s \<and> 1 / 5 \<le> s \<and> s \<le> 1"
proof -
  let ?ds = "[0.229, 0.224, 0.225] :: real list"
  have "?ds ! c \<in> set ?ds" using assms by (intro nth_mem) simp
  from std_literal[OF this] obtain s where
    s: "to_f32 (py_float (?ds ! c)) = Finite s" "1 / 5 \<le> s" "s \<le> 1" by blast
  have "std ! c = py_float (?ds ! c)"
    unfolding std_def using assms by (intro nth_map) simp
  moreover have "map to_f32 std ! c = to_f32 (std ! c)"
    using assms by (intro nth_map) (simp add: std_def)
  ultimately show ?thesis using s by simp
qed

lemma std_nonzero: "Finite 0 \<notin> set (map to_f32 std)"
proof
  assume "Finite 0 \<in> set (map to_f32 std)"
  then have "Finite 0 \<in> to_f32 ` py_float ` set [0.229, 0.224, 0.225]"
    unfolding std_def by (simp only: set_map)
  then obtain d where d: "d \<in> set [0.229, 0.224, 0.225]" "Finite 0 = to_f32 (py_float d)"
    by blast
  from std_literal[OF d(1)] d(2) show False by auto
qed

lemma length_mean_std: "length mean = 3" "length std = 3"
  by (simp_all add: mean_def std_def)

lemma normalize_rgb:
  assumes "shape t = [3, h, w]" "dtype t = float32"
  shows "\<exists>n. normalize mean std t = Inr n \<and> shape n = [3, h, w] \<and> dtype n = float32
     \<and> (\<forall>c y x. item n [c, y, x]
           = f32_div (f32_sub (item t [c, y, x]) (map to_f32 mean ! c)) (map to_f32 std ! c))"
  using assms std_nonzero by (simp add: normalize_def length_mean_std Let_def)

text \<open>Subtracting a mean and dividing by a deviation of at least 1/5 stays finite.\<close>

lemma entry_finite:
  assumes "\<bar>v\<bar> \<le> 2" "\<bar>m\<bar> \<le> 1" "1 / 5 \<le> s"
  shows "is_finite (f32_div (f32_sub (Finite v) (Finite m)) (Finite s))"
proof -
  have "\<bar>v - m\<bar> \<le> 3" using assms(1,2) by (simp add: abs_le_iff)
  then have "\<bar>v - m\<bar> \<le> 1000" by simp
  from to_f32_Finite[OF this] obtain d where
    d: "to_f32 (v - m) = Finite d" "\<bar>d - (v - m)\<bar> \<le> (\<bar>v - m\<bar> + 1) / 2048" by blast
  have "\<bar>d - (v - m)\<bar> \<le> 1" using d(2) \<open>\<bar>v - m\<bar> \<le> 3\<close> by simp
  then have d4: "\<bar>d\<bar> \<le> 4" using \<open>\<bar>v - m\<bar> \<le> 3\<close> by (simp add: abs_le_iff)
  have s0: "0 < s" using assms(3) by simp
  have "\<bar>d\<bar> / s \<le> 4 / (1 / 5)"
    using d4 assms(3) by (intro frac_le) simp_all
  then have "\<bar>d / s\<bar> \<le> 1000" using s0 by (simp add: abs_divide)
  from to_f32_Finite[OF this] obtain q where "to_f32 (d / s) = Finite q" by blast
  then show ?thesis using d(1) s0 by simp
qed

lemma preprocess_image_returns:
  assumes "mode img = RGB" "resize (resample lib) 256 img = Inr r"
  shows "\<exists>t. preprocess_image lib img = Inr t"
proof -
  from resize_ok[OF assms(2)] have
    r: "mode r = mode img" "256 \<le> width r" "256 \<le> height r"
    by simp_all
  have "shape (to_tensor (center_crop 224 r)) = [3, 224, 224]"
    "dtype (to_tensor (center_crop 224 r)) = float32"
    using center_crop_ok[of r] r assms(1) by (simp_all add: to_tensor_def)
  from normalize_rgb[OF this] obtain n where
    "normalize mean std (to_tensor (center_crop 224 r)) = Inr n" by blast
  then show ?thesis by (simp add: preprocess_image_def transform_def assms(2))
qed

text \<open>
  The decode step hands an RGB image on as it is and every other image to PIL's
  \<open>convert\<close>; what \<open>convert\<close> returns or raises is PIL's own.
\<close>

lemma load_image_from_bytes_cases:
  assumes "Image_open lib image_bytes = Inr img"
  shows "load_image_from_bytes lib image_bytes
     = (if mode img = RGB then Inr img else convert lib img RGB)"
  using assms by (simp add: load_image_from_bytes_def)

lemma load_image_from_path_cases:
  assumes "Image_open_path lib image_path = Inr img"
  shows "load_image_from_path lib image_path
     = (if mode img = RGB then Inr img else convert lib img RGB)"
  using assms by (simp add: load_image_from_path_def)

section \<open>The entry of a black pixel\<close>

text \<open>
  Within a binade the rounding is the nearest multiple of the binade's unit, so it can
  be computed. In channel 0 a black pixel becomes the \<open>float32\<close> value
  \<open>-8883133 / 2 ^ 22\<close>, which is -2.1179039478...: slightly below
  \<open>(0 - 0.485) / 0.229\<close>, which is -2.1179039301..., the value in exact arithmetic.
\<close>

lemma round_to_binade:
  assumes "2 powr of_int e \<le> \<bar>x\<bar>" "\<bar>x\<bar> < 2 powr of_int (e + 1)" "emin \<le> e"
  shows "round_to p emin x
     = of_int (half_even (x / 2 powr of_int (e - int p + 1))) * 2 powr of_int (e - int p + 1)"
proof -
  have xp: "0 < \<bar>x\<bar>" using assms(1) powr_gt_zero[of 2 "of_int e"] by linarith
  have "2 powr of_int emin \<le> (2::real) powr of_int e" using assms(3) by (intro powr_mono) simp_all
  then have n: "\<not> \<bar>x\<bar> < 2 powr of_int emin" using assms(1) by linarith
  have "of_int e \<le> log 2 \<bar>x\<bar>" using assms(1) xp by (simp add: le_log_iff)
  moreover have "log 2 \<bar>x\<bar> < of_int (e + 1)" using assms(2) xp by (simp add: log_less_iff)
  ultimately have "\<lfloor>log 2 \<bar>x\<bar>\<rfloor> = e" by (intro floor_unique) simp_all
  then show ?thesis using n by (simp add: round_to_def Let_def)
qed

lemma round_to_0: "round_to p emin 0 = 0"
  by (simp add: round_to_def Let_def half_even_def)

lemma to_f32_0: "to_f32 0 = Finite 0"
  by (simp add: to_f32_def round_to_0 f32_max_def)

lemma py_float_485: "py_float 0.485 = 4368491638549381 / 2 ^ 53"
proof -
  have "py_float 0.485 = of_int (half_even (0.485 / 2 powr of_int (- 2 - int 53 + 1))) * 2 powr of_int (- 2 - int 53 + 1)"
    unfolding py_float_def by (rule round_to_binade) (simp_all add: powr_minus_divide)
  also have "\<dots> = 4368491638549381 / 2 ^ 53"
    by (simp add: powr_minus_divide half_even_def Let_def)
  finally show ?thesis .
qed

lemma py_float_229: "py_float 0.229 = 8250594517342749 / 2 ^ 55"
proof -
  have "py_float 0.229 = of_int (half_even (0.229 / 2 powr of_int (- 3 - int 53 + 1))) * 2 powr of_int (- 3 - int 53 + 1)"
    unfolding py_float_def by (rule round_to_binade) (simp_all add: powr_minus_divide)
  also have "\<dots> = 8250594517342749 / 2 ^ 55"
    by (simp add: powr_minus_divide half_even_def Let_def)
  finally show ?thesis .
qed

lemma mean_0_f32: "to_f32 (py_float 0.485) = Finite (4068475 / 2 ^ 23)"
proof -
  let ?x = "4368491638549381 / 2 ^ 53 :: real"
  have "round_to 24 (- 126) ?x = of_int (half_even (?x / 2 powr of_int (- 2 - int 24 + 1))) * 2 powr of_int (- 2 - int 24 + 1)"
    by (rule round_to_binade) (simp_all add: powr_minus_divide)
  also have "\<dots> = 4068475 / 2 ^ 23"
    by (simp add: powr_minus_divide half_even_def Let_def)
  finally have r: "round_to 24 (- 126) (py_float 0.485) = 4068475 / 2 ^ 23"
    unfolding py_float_485 .
  show ?thesis unfolding to_f32_def Let_def r by (simp add: f32_max_def)
qed

lemma std_0_f32: "to_f32 (py_float 0.229) = Finite (7683965 / 2 ^ 25)"
proof -
  let ?x = "8250594517342749 / 2 ^ 55 :: real"
  have "round_to 24 (- 126) ?x = of_int (half_even (?x / 2 powr of_int (- 3 - int 24 + 1))) * 2 powr of_int (- 3 - int 24 + 1)"
    by (rule round_to_binade) (simp_all add: powr_minus_divide)
  also have "\<dots> = 7683965 / 2 ^ 25"
    by (simp add: powr_minus_divide half_even_def Let_def)
  finally have r: "round_to 24 (- 126) (py_float 0.229) = 7683965 / 2 ^ 25"
    unfolding py_float_229 .
  show ?thesis unfolding to_f32_def Let_def r by (simp add: f32_max_def)
qed

lemma black_sub:
  "f32_sub (Finite 0) (Finite (4068475 / 2 ^ 23)) = Finite (- (4068475 / 2 ^ 23))"
proof -
  let ?x = "0 - 4068475 / 2 ^ 23 :: real"
  have "round_to 24 (- 126) ?x = of_int (half_even (?x / 2 powr of_int (- 2 - int 24 + 1))) * 2 powr of_int (- 2 - int 24 + 1)"
    by (rule round_to_binade) (simp_all add: powr_minus_divide)
  also have "\<dots> = - (4068475 / 2 ^ 23)"
    by (simp add: powr_minus_divide half_even_def Let_def)
  finally have r: "round_to 24 (- 126) ?x = - (4068475 / 2 ^ 23)" .
  show ?thesis unfolding f32_sub.simps to_f32_def Let_def r by (simp add: f32_max_def)
qed

lemma black_div:
  "f32_div (Finite (- (4068475 / 2 ^ 23))) (Finite (7683965 / 2 ^ 25))
     = Finite (- (8883133 / 2 ^ 22))"
proof -
  let ?x = "- (4068475 / 2 ^ 23) / (7683965 / 2 ^ 25) :: real"
  have "round_to 24 (- 126) ?x = of_int (half_even (?x / 2 powr of_int (1 - int 24 + 1))) * 2 powr of_int (1 - int 24 + 1)"
    by (rule round_to_binade) (simp_all add: powr_minus_divide)
  also have "\<dots> = - (8883133 / 2 ^ 22)"
    by (simp add: powr_minus_divide half_even_def Let_def)
  finally have r: "round_to 24 (- 126) ?x = - (8883133 / 2 ^ 22)" .
  have "f32_div (Finite (- (4068475 / 2 ^ 23))) (Finite (7683965 / 2 ^ 25)) = to_f32 ?x"
    by simp
  also have "\<dots> = Finite (- (8883133 / 2 ^ 22))"
    unfolding to_f32_def Let_def r by (simp add: f32_max_def)
  finally show ?thesis .
qed

lemma black_pixel_entry:
  "f32_div (f32_sub (f32_div (Finite 0) (Finite 255)) (to_f32 (py_float 0.485)))
     (to_f32 (py_float 0.229)) = Finite (- (8883133 / 2 ^ 22))"
proof -
  have a: "f32_div (Finite 0) (Finite 255) = Finite 0" by (simp add: to_f32_0)
  show ?thesis by (simp only: a mean_0_f32 std_0_f32 black_sub black_div)
qed

lemma preprocess_black_image:
  "\<exists>t. preprocess_image example_pil black_image = Inr t
     \<and> item t [0, 0, 0, 0] = Finite (- (8883133 / 2 ^ 22))"
proof -
  have "\<exists>r. resize (resample example_pil) 256 black_image = Inr r
      \<and> width r = 384 \<and> height r = 256 \<and> mode r = RGB \<and> (\<forall>x y b. getpixel r x y b = 0)"
    by (simp add: resize_def black_image_def example_pil_def nearest_def Let_def)
  then obtain r where r: "resize (resample example_pil) 256 black_image = Inr r"
    and d: "width r = 384" "height r = 256" "mode r = RGB"
    and z: "\<And>x y b. getpixel r x y b = 0"
    by blast
  let ?c = "center_crop 224 r"
  have cc: "width ?c = 224" "height ?c = 224" "mode ?c = RGB"
    using center_crop_ok[of r] d by simp_all
  have sh: "shape (to_tensor ?c) = [3, 224, 224]" "dtype (to_tensor ?c) = float32"
    by (simp_all add: to_tensor_def cc)
  from normalize_rgb[OF sh] obtain n where
    n: "normalize mean std (to_tensor ?c) = Inr n"
       "\<And>c y x. item n [c, y, x]
          = f32_div (f32_sub (item (to_tensor ?c) [c, y, x]) (map to_f32 mean ! c))
              (map to_f32 std ! c)"
    by blast
  have "getpixel ?c 0 0 0 = 0"
    using d by (simp add: center_crop_def crop_def Let_def z)
  then have px: "item (to_tensor ?c) [0, 0, 0] = f32_div (Finite 0) (Finite 255)"
    by (simp add: to_tensor_def)
  have ms: "map to_f32 mean ! 0 = to_f32 (py_float 0.485)"
    "map to_f32 std ! 0 = to_f32 (py_float 0.229)"
    by (simp_all add: mean_def std_def)
  have "item n [0, 0, 0]
      = f32_div (f32_sub (item (to_tensor ?c) [0, 0, 0]) (map to_f32 mean ! 0))
          (map to_f32 std ! 0)"
    by (rule n(2))
  also have "\<dots> = f32_div (f32_sub (f32_div (Finite 0) (Finite 255)) (to_f32 (py_float 0.485)))
      (to_f32 (py_float 0.229))"
    by (simp only: px ms)
  also have "\<dots> = Finite (- (8883133 / 2 ^ 22))"
    by (rule black_pixel_entry)
  finally have "item (unsqueeze0 n) [0, 0, 0, 0] = Finite (- (8883133 / 2 ^ 22))"
    by (simp add: unsqueeze0_def)
  moreover have "preprocess_image example_pil black_image = Inr (unsqueeze0 n)"
    by (simp add: preprocess_image_def transform_def r n(1))
  ultimately show ?thesis by blast
qed

section \<open>Selections that meet the contract of topk\<close>

lemma sorted_rev_uminus: "sorted (rev ys) \<longleftrightarrow> sorted (map uminus (ys :: real list))"
  by (induction ys) (auto simp: sorted_append)

lemma topk_of_is_topk:
  assumes ps: "mset ps = mset (zip xs [0..<length xs])" and k: "k \<le> length xs"
  shows "is_topk xs k (topk_of ps k)"
proof -
  let ?f = "\<lambda>p :: real \<times> nat. - fst p"
  let ?S = "sort_key ?f ps"
  let ?T = "take k ?S"
  have mS: "mset ?S = mset (zip xs [0..<length xs])" using ps by simp
  have setS: "set ?S = set (zip xs [0..<length xs])" using mS by (rule mset_eq_setD)
  have "length ?S = length (zip xs [0..<length xs])" using mS by (rule mset_eq_length)
  then have lenS: "length ?S = length xs" by simp
  have el: "fst p = xs ! snd p \<and> snd p < length xs" if "p \<in> set ?S" for p
  proof -
    from that setS have "(fst p, snd p) \<in> set (zip xs [0..<length xs])" by simp
    then show ?thesis by (auto simp: in_set_zip)
  qed
  from mS have "image_mset snd (mset ?S) = image_mset snd (mset (zip xs [0..<length xs]))"
    by (rule arg_cong)
  then have "mset (map snd ?S) = mset (map snd (zip xs [0..<length xs]))"
    by (simp only: mset_map)
  then have "mset (map snd ?S) = mset [0..<length xs]" by simp
  then have "distinct (map snd ?S) = distinct [0..<length xs]"
    by (rule mset_eq_imp_distinct_iff)
  then have dS: "distinct (map snd ?S)" by simp
  have sS: "sorted (map ?f ?S)" by (rule sorted_sort_key)
  have subT: "set ?T \<subseteq> set ?S" by (rule set_take_subset)
  have 1: "length (map snd ?T) = k" using k lenS by simp
  have "distinct (take k (map snd ?S))" using dS by (rule distinct_take)
  then have 2: "distinct (map snd ?T)" by (simp only: take_map)
  have 3: "\<forall>i \<in> set (map snd ?T). i < length xs"
  proof
    fix i assume "i \<in> set (map snd ?T)"
    then obtain p where "p \<in> set ?T" "i = snd p" by auto
    then show "i < length xs" using el subT by blast
  qed
  have "\<forall>p \<in> set ?T. fst p = xs ! snd p" using el subT by blast
  then have "map fst ?T = map (\<lambda>p. xs ! snd p) ?T" by (rule map_eq_conv[THEN iffD2])
  then have 4: "map fst ?T = map (\<lambda>i. xs ! i) (map snd ?T)"
    by (simp only: map_map comp_def)
  have "sorted (take k (map ?f ?S))" using sS by (rule sorted_wrt_take)
  then have "sorted (map uminus (map fst ?T))" by (simp only: take_map map_map comp_def)
  then have 5: "sorted (rev (map fst ?T))" by (simp only: sorted_rev_uminus)
  have "sorted (map ?f (?T @ drop k ?S))" using sS by (simp only: append_take_drop_id)
  then have spl: "\<forall>a \<in> set ?T. \<forall>b \<in> set (drop k ?S). ?f a \<le> ?f b"
    by (simp add: sorted_append del: append_take_drop_id)
  have 6: "\<forall>j \<in> {0..<length xs} - set (map snd ?T). \<forall>v \<in> set (map fst ?T). xs ! j \<le> v"
  proof (intro ballI)
    fix j v
    assume j: "j \<in> {0..<length xs} - set (map snd ?T)" and v: "v \<in> set (map fst ?T)"
    from j have "(xs ! j, j) \<in> set (zip xs [0..<length xs])" by (auto simp: in_set_zip)
    then have "(xs ! j, j) \<in> set ?S" using setS by simp
    moreover have "set ?S = set ?T \<union> set (drop k ?S)"
      by (metis append_take_drop_id set_append)
    moreover have "(xs ! j, j) \<notin> set ?T" using j by force
    ultimately have d: "(xs ! j, j) \<in> set (drop k ?S)" by blast
    from v obtain p where p: "p \<in> set ?T" "v = fst p" by auto
    with spl d have "?f p \<le> ?f (xs ! j, j)" by blast
    then show "xs ! j \<le> v" using p(2) by simp
  qed
  have "is_topk xs k (map fst ?T, map snd ?T)"
    unfolding is_topk_def prod.case using 1 2 3 4 5 6 by blast
  then show ?thesis by (simp only: topk_of_def Let_def)
qed

lemma topk_first_contract: "topk_contract topk_first"
  unfolding topk_contract_def topk_first_def by (simp add: topk_of_is_topk)

section \<open>Softmax\<close>

lemma softmax_length: "length (softmax xs) = length xs"
  by (simp add: softmax_def Let_def)

lemma sum_list_div: "(\<Sum>x\<leftarrow>xs. f x / c) = (\<Sum>x\<leftarrow>xs. f x) / (c :: real)"
  by (induction xs) (simp_all add: add_divide_distrib)

lemma exp_sum_pos:
  assumes "xs \<noteq> []"
  shows "0 < (\<Sum>x\<leftarrow>xs. exp (x - m :: real))"
proof (cases xs)
  case Nil
  with assms show ?thesis by simp
next
  case (Cons a as)
  have "0 \<le> (\<Sum>x\<leftarrow>as. exp (x - m))" by (rule sum_list_nonneg) auto
  moreover have "0 < exp (a - m)" by simp
  ultimately show ?thesis using Cons by (simp add: add_pos_nonneg)
qed

lemma softmax_sum:
  assumes "xs \<noteq> []"
  shows "sum_list (softmax xs) = 1"
proof -
  let ?m = "Max (set xs)"
  let ?es = "map (\<lambda>x. exp (x - ?m)) xs"
  have z: "sum_list ?es \<noteq> 0" using exp_sum_pos[OF assms, of ?m] by simp
  have "sum_list (softmax xs) = (\<Sum>e\<leftarrow>?es. e / sum_list ?es)"
    by (simp add: softmax_def Let_def)
  also have "\<dots> = sum_list ?es / sum_list ?es"
    using sum_list_div[of "\<lambda>e. e" "sum_list ?es" ?es] by simp
  also have "\<dots> = 1" using z by simp
  finally show ?thesis .
qed

lemma softmax_nth_stable:
  assumes "i < length xs"
  shows "softmax xs ! i = exp (xs ! i - Max (set xs)) / (\<Sum>x\<leftarrow>xs. exp (x - Max (set xs)))"
  using assms by (simp add: softmax_def Let_def)

lemma exp_shift_sum: "(\<Sum>x\<leftarrow>xs. exp (x - m :: real)) = (\<Sum>x\<leftarrow>xs. exp x) / exp m"
proof -
  have "(\<Sum>x\<leftarrow>xs. exp (x - m)) = (\<Sum>x\<leftarrow>xs. exp x / exp m)"
    by (simp only: exp_diff)
  also have "\<dots> = (\<Sum>x\<leftarrow>xs. exp x) / exp m"
    by (rule sum_list_div)
  finally show ?thesis .
qed

lemma softmax_nth:
  assumes "i < length xs"
  shows "softmax xs ! i = exp (xs ! i) / (\<Sum>x\<leftarrow>xs. exp x)"
proof -
  let ?m = "Max (set xs)"
  have "softmax xs ! i = exp (xs ! i - ?m) / (\<Sum>x\<leftarrow>xs. exp (x - ?m))"
    using assms by (rule softmax_nth_stable)
  also have "\<dots> = (exp (xs ! i) / exp ?m) / ((\<Sum>x\<leftarrow>xs. exp x) / exp ?m)"
    using exp_shift_sum[of ?m xs] by (simp only: exp_diff)
  also have "\<dots> = exp (xs ! i) / (\<Sum>x\<leftarrow>xs. exp x)"
    by simp
  finally show ?thesis .
qed

lemma softmax_range:
  assumes "p \<in> set (softmax xs)"
  shows "0 \<le> p \<and> p \<le> 1"
proof -
  let ?m = "Max (set xs)"
  let ?es = "map (\<lambda>x. exp (x - ?m)) xs"
  from assms obtain e where e: "e \<in> set ?es" "p = e / sum_list ?es"
    by (auto simp: softmax_def Let_def)
  then have ne: "xs \<noteq> []" by auto
  have pos: "0 < sum_list ?es" using exp_sum_pos[OF ne, of ?m] by simp
  have nonneg: "\<forall>x \<in> set ?es. 0 \<le> x" by simp
  have epos: "0 \<le> e" using e(1) by auto
  have "e \<le> sum_list ?es" using nonneg e(1) by (metis member_le_sum_list)
  then show ?thesis using pos epos e(2) by simp
qed

section \<open>The steps of the adapter\<close>

lemma load_model_loaded: "model s = Some m \<Longrightarrow> load_model lib s = (Inr (), s)"
  by (simp add: load_model_def)

lemma load_model_unloaded:
  "model s = None \<Longrightarrow> mobilenet_v2 lib (instantiations s) = Inr m \<Longrightarrow>
   load_model lib s = (Inr (), s\<lparr>model := Some m, instantiations := Suc (instantiations s)\<rparr>)"
  by (simp add: load_model_def)

lemma probabilities_loaded:
  "model s = Some m \<Longrightarrow>
   probabilities lib s t =
     (case m t of
        Inl e \<Rightarrow> (Inl e, s\<lparr>invocations := invocations s @ [t]\<rparr>)
      | Inr [] \<Rightarrow> (Inl (Exception IndexError ''index 0 is out of bounds''),
                    s\<lparr>invocations := invocations s @ [t]\<rparr>)
      | Inr (row # rest) \<Rightarrow> (Inr (softmax row), s\<lparr>invocations := invocations s @ [t]\<rparr>))"
  by (simp add: probabilities_def Let_def split: sum.splits list.splits)

lemma probabilities_unloaded:
  "model s = None \<Longrightarrow> mobilenet_v2 lib (instantiations s) = Inr m \<Longrightarrow>
   probabilities lib s t =
     probabilities lib (s\<lparr>model := Some m, instantiations := Suc (instantiations s)\<rparr>) t"
  by (simp add: probabilities_def load_model_def Let_def split: sum.splits list.splits)

lemma probabilities_Inr:
  assumes "probabilities lib s t = (Inr probs, s')"
  shows "\<exists>m row rest. model s' = Some m \<and> m t = Inr (row # rest) \<and> probs = softmax row"
  using assms
  by (auto simp: probabilities_def load_model_def Let_def split: if_splits sum.splits list.splits option.splits)

lemma results_loop_Inr:
  assumes "\<forall>i \<in> set is. i < length top_classes \<and> top_classes ! i < length names \<and> i < length top_probs"
  shows "results_loop names top_probs top_classes is acc =
     Inr (acc @ map (\<lambda>i. \<lparr>class_name = names ! (top_classes ! i), confidence = top_probs ! i\<rparr>) is)"
  using assms by (induction "is" arbitrary: acc) simp_all

lemma results_loop_InrD:
  assumes "results_loop names top_probs top_classes is acc = Inr rs"
  shows "rs = acc @ map (\<lambda>i. \<lparr>class_name = names ! (top_classes ! i), confidence = top_probs ! i\<rparr>) is
     \<and> (\<forall>i \<in> set is. i < length top_classes \<and> top_classes ! i < length names \<and> i < length top_probs)"
  using assms
proof (induction "is" arbitrary: acc)
  case Nil
  then show ?case by simp
next
  case (Cons i "is")
  let ?r = "\<lparr>class_name = names ! (top_classes ! i), confidence = top_probs ! i\<rparr>"
  from Cons.prems have ok: "i < length top_classes" "top_classes ! i < length names"
      "i < length top_probs"
    by (simp_all split: if_splits)
  with Cons.prems have "results_loop names top_probs top_classes is (acc @ [?r]) = Inr rs"
    by simp
  from Cons.IH[OF this] show ?case using ok by simp
qed

section \<open>What the adapter does to its state\<close>

lemma load_times_loaded:
  "model s = Some m \<Longrightarrow> load_times lib n s = s"
  by (induction n) (simp_all add: load_model_loaded)

lemma get_classifier_cached:
  "classifier_instance g = Some c \<Longrightarrow> get_classifier lib g = (Inr c, g)"
  by (simp add: get_classifier_def)

lemma get_times_cached:
  "classifier_instance g = Some c \<Longrightarrow> get_times lib n g = g"
  by (induction n) (simp_all add: get_classifier_cached)

lemma probabilities_state:
  assumes "model s = Some m \<or> (model s = None \<and> mobilenet_v2 lib (instantiations s) = Inr m)"
  shows "model (snd (probabilities lib s t)) = Some m
     \<and> instantiations (snd (probabilities lib s t))
         = (if model s = None then Suc (instantiations s) else instantiations s)
     \<and> invocations (snd (probabilities lib s t)) = invocations s @ [t]
     \<and> class_names (snd (probabilities lib s t)) = class_names s
     \<and> (\<forall>e. m t = Inl e \<longrightarrow> fst (probabilities lib s t) = Inl e)"
  using assms
  by (auto simp: probabilities_unloaded probabilities_loaded split: sum.splits list.splits)

lemma predict_state: "snd (predict lib s t) = snd (probabilities lib s t)"
  by (simp add: predict_def split: prod.splits sum.splits list.splits)

lemma predict_top_k_state: "snd (predict_top_k lib s t k) = snd (probabilities lib s t)"
  by (simp add: predict_top_k_def split: prod.splits sum.splits)



section \<open>Equal scores\<close>

lemma softmax_replicate:
  assumes "0 < n"
  shows "softmax (replicate n c) = replicate n (1 / real n)"
proof -
  have "Max (set (replicate n c)) = c" using assms by simp
  then show ?thesis by (simp add: softmax_def Let_def sum_list_replicate)
qed

lemma sort_key_const:
  assumes "\<forall>x \<in> set xs. f x = (c :: real)"
  shows "sort_key f xs = xs"
  using assms
proof (induction xs)
  case Nil
  then show ?case by simp
next
  case (Cons a as)
  then have "sort_key f (a # as) = insort_key f a as" by simp
  also have "\<dots> = a # as" using Cons.prems by (cases as) simp_all
  finally show ?case .
qed

lemma topk_of_const:
  assumes "\<forall>p \<in> set ps. fst p = c"
  shows "topk_of ps k = (map fst (take k ps), map snd (take k ps))"
proof -
  have "sort_key (\<lambda>p. - fst p) ps = ps"
    using assms by (intro sort_key_const[of _ _ "- c"]) simp
  then show ?thesis by (simp add: topk_of_def Let_def)
qed

lemma topk_first_replicate:
  assumes "k \<le> n"
  shows "topk_first (replicate n c) k = (replicate k c, [0..<k])"
proof -
  have "\<forall>p \<in> set (zip (replicate n c) [0..<n]). fst p = c"
    by (auto dest: set_zip_leftD)
  then have "topk_of (zip (replicate n c) [0..<n]) k
      = (map fst (take k (zip (replicate n c) [0..<n])), map snd (take k (zip (replicate n c) [0..<n])))"
    by (rule topk_of_const)
  then have "topk_first (replicate n c) k
      = (map fst (take k (zip (replicate n c) [0..<n])), map snd (take k (zip (replicate n c) [0..<n])))"
    by (simp add: topk_first_def)
  also have "\<dots> = (replicate k c, [0..<k])"
    using assms by (simp add: take_zip min_absorb1 take_upt)
  finally show ?thesis .
qed

text \<open>
  The CPU kernel on 1000 equal values, for \<open>k = 5\<close>: the heap is built from the first
  five pairs, no later pair displaces one, and sorting the heap leaves the indices in
  the order 3, 4, 1, 0, 2.
\<close>

lemma fold_no_pop:
  assumes "\<And>i. i \<in> set js \<Longrightarrow> \<not> topk_cmp (b ! i) (b ! 0)"
  shows "fold (\<lambda>i a. if topk_cmp (a ! i) (a ! 0) then pop_heap a middle i else a) js b = b"
  using assms by (induction js) simp_all

lemma take_5:
  assumes "5 \<le> length b"
  shows "take 5 b = [b ! 0, b ! 1, b ! 2, b ! 3, b ! 4]"
proof (rule nth_equalityI)
  show "length (take 5 b) = length [b ! 0, b ! 1, b ! 2, b ! 3, b ! 4]"
    using assms by simp
next
  fix i assume "i < length (take 5 b)"
  then have "i < 5" by simp
  then have "i = 0 \<or> i = 1 \<or> i = 2 \<or> i = 3 \<or> i = 4" by arith
  then show "take 5 b ! i = [b ! 0, b ! 1, b ! 2, b ! 3, b ! 4] ! i"
    by (elim disjE) simp_all
qed

lemma topk_partial_sort_uniform:
  "topk_partial_sort (replicate 1000 c) 5 = (replicate 5 c, [3, 4, 1, 0, 2])"
proof -
  define A where "A = zip (replicate 1000 c) [0..<1000]"
  have lenA: "length A = 1000" by (simp add: A_def)
  have nthA: "\<And>i. i < 1000 \<Longrightarrow> A ! i = (c, i)" by (simp add: A_def)
  have mh: "make_heap A 5 = A[1 := (c, 4), 4 := (c, 1), 0 := (c, 2), 2 := (c, 0)]"
    by (simp add: make_heap_def lenA nthA topk_cmp_def adjust_heap_def Let_def)
  have q: "\<not> topk_cmp (make_heap A 5 ! i) (make_heap A 5 ! 0)" if "5 \<le> i \<and> i < 1000" for i
    using that by (simp add: mh lenA nthA topk_cmp_def)
  have b: "5 \<le> i \<and> i < 1000" if "i \<in> set [5..<length A]" for i
    using that by (simp only: set_upt atLeastLessThan_iff lenA)
  have "\<not> topk_cmp (make_heap A 5 ! i) (make_heap A 5 ! 0)" if "i \<in> set [5..<length A]" for i
    using that by (intro q b)
  then have hs: "heap_select A 5 = make_heap A 5"
    unfolding heap_select_def by (rule fold_no_pop)
  have len: "length (sort_heap (make_heap A 5) 5) = 1000"
    by (simp add: make_heap_def lenA nthA topk_cmp_def adjust_heap_def pop_heap_def Let_def)
  have nth: "sort_heap (make_heap A 5) 5 ! 0 = (c, 3)" "sort_heap (make_heap A 5) 5 ! 1 = (c, 4)"
    "sort_heap (make_heap A 5) 5 ! 2 = (c, 1)" "sort_heap (make_heap A 5) 5 ! 3 = (c, 0)"
    "sort_heap (make_heap A 5) 5 ! 4 = (c, 2)"
    by (simp_all add: make_heap_def lenA nthA topk_cmp_def adjust_heap_def pop_heap_def Let_def)
  have t: "take 5 (partial_sort A 5) = [(c, 3), (c, 4), (c, 1), (c, 0), (c, 2)]"
    unfolding partial_sort_def hs using len by (simp only: take_5 nth)
  have r: "replicate 5 c = [c, c, c, c, c]"
    by (simp add: eval_nat_numeral)
  have "topk_partial_sort (replicate 1000 c) 5
      = (map fst (take 5 (partial_sort A 5)), map snd (take 5 (partial_sort A 5)))"
    by (simp add: topk_partial_sort_def A_def Let_def)
  then show ?thesis by (simp add: t r)
qed

text \<open>For \<open>k = 2\<close> the same kernel leaves the indices in the order 0, 1.\<close>

lemma take_2:
  assumes "2 \<le> length b"
  shows "take 2 b = [b ! 0, b ! 1]"
proof (rule nth_equalityI)
  show "length (take 2 b) = length [b ! 0, b ! 1]"
    using assms by simp
next
  fix i assume "i < length (take 2 b)"
  then have "i < 2" by simp
  then have "i = 0 \<or> i = 1" by arith
  then show "take 2 b ! i = [b ! 0, b ! 1] ! i"
    by (elim disjE) simp_all
qed

lemma topk_partial_sort_uniform_2:
  "topk_partial_sort (replicate 1000 c) 2 = ([c, c], [0, 1])"
proof -
  define A where "A = zip (replicate 1000 c) [0..<1000]"
  have lenA: "length A = 1000" by (simp add: A_def)
  have nthA: "\<And>i. i < 1000 \<Longrightarrow> A ! i = (c, i)" by (simp add: A_def)
  have mh: "make_heap A 2 = A[0 := (c, 1), 1 := (c, 0)]"
    by (simp add: make_heap_def lenA nthA topk_cmp_def adjust_heap_def Let_def)
  have q: "\<not> topk_cmp (make_heap A 2 ! i) (make_heap A 2 ! 0)" if "2 \<le> i \<and> i < 1000" for i
    using that by (simp add: mh lenA nthA topk_cmp_def)
  have b: "2 \<le> i \<and> i < 1000" if "i \<in> set [2..<length A]" for i
    using that by (simp only: set_upt atLeastLessThan_iff lenA)
  have "\<not> topk_cmp (make_heap A 2 ! i) (make_heap A 2 ! 0)" if "i \<in> set [2..<length A]" for i
    using that by (intro q b)
  then have hs: "heap_select A 2 = make_heap A 2"
    unfolding heap_select_def by (rule fold_no_pop)
  have len: "2 \<le> length (sort_heap (make_heap A 2) 2)"
    by (simp add: make_heap_def lenA nthA topk_cmp_def adjust_heap_def pop_heap_def Let_def)
  have nth: "sort_heap (make_heap A 2) 2 ! 0 = (c, 0)" "sort_heap (make_heap A 2) 2 ! 1 = (c, 1)"
    by (simp_all add: make_heap_def lenA nthA topk_cmp_def adjust_heap_def pop_heap_def Let_def)
  have t: "take 2 (partial_sort A 2) = [(c, 0), (c, 1)]"
    unfolding partial_sort_def hs using len by (simp only: take_2 nth)
  have "topk_partial_sort (replicate 1000 c) 2
      = (map fst (take 2 (partial_sort A 2)), map snd (take 2 (partial_sort A 2)))"
    by (simp add: topk_partial_sort_def A_def Let_def)
  then show ?thesis by (simp add: t)
qed

section \<open>The example library\<close>

lemma example_torch_simps:
  "mobilenet_v2 example_torch n = Inr uniform_model"
  "hub_load example_torch n = Inr uniform_model"
  "topk example_torch = topk_first"
  "categories example_torch = example_categories"
  "imagenet_classes_txt example_torch = Inr example_categories"
  by (simp_all add: example_torch_def)

lemma cpu_torch_simps:
  "mobilenet_v2 cpu_torch n = Inr uniform_model"
  "topk cpu_torch = topk_partial_sort"
  "categories cpu_torch = example_categories"
  by (simp_all add: cpu_torch_def example_torch_def)

lemma flaky_torch_simps:
  "mobilenet_v2 flaky_torch 0 = Inl (Exception OSError ''Network is unreachable'')"
  "mobilenet_v2 flaky_torch (Suc n) = Inr uniform_model"
  "hub_load flaky_torch 0 = Inl (Exception OSError ''Network is unreachable'')"
  "hub_load flaky_torch (Suc n) = Inr uniform_model"
  "categories flaky_torch = example_categories"
  by (simp_all add: flaky_torch_def example_torch_def)

lemma uniform_probabilities:
  "probabilities example_torch (ModelLoader_init example_torch) t =
     (Inr (replicate 1000 (1 / 1000)),
      \<lparr>model = Some uniform_model, class_names = example_categories,
       instantiations = 1, invocations = [t]\<rparr>)"
  by (simp add: probabilities_def load_model_def ModelLoader_init_def example_torch_simps
      uniform_model_def softmax_replicate)

lemma uniform_probabilities_cpu:
  "probabilities cpu_torch (ModelLoader_init cpu_torch) t =
     (Inr (replicate 1000 (1 / 1000)),
      \<lparr>model = Some uniform_model, class_names = example_categories,
       instantiations = 1, invocations = [t]\<rparr>)"
  by (simp add: probabilities_def load_model_def ModelLoader_init_def cpu_torch_simps
      uniform_model_def softmax_replicate)

lemma length_example_categories: "length example_categories = 1000"
  by (simp add: example_categories_def)

lemma example_categories_not_Nil: "example_categories \<noteq> []"
  using length_example_categories by auto

lemma example_names:
  "example_categories ! 0 = ''class_0''"
  by (simp_all add: example_categories_def)

section \<open>The two extension checks\<close>

lemma splitext_loop_suffix: "suffix (snd (splitext_loop p d f)) p"
  by (induction p d f rule: splitext_loop.induct) (simp add: suffix_drop)

lemma splitext_suffix: "suffix (snd (splitext p)) p"
  by (simp add: splitext_def Let_def splitext_loop_suffix del: splitext_loop.simps)

lemma file_ext_suffix: "suffix (file_ext p) (lower p)"
  by (simp add: file_ext_def lower_def map_mono_suffix splitext_suffix)

lemma classify_accepts_imp_validate: "classify_accepts f \<Longrightarrow> validate_file_type f"
  unfolding classify_accepts_def validate_file_type_def endswith_def
  using file_ext_suffix by blast

lemma sublist_join: "x \<in> set xs \<Longrightarrow> sublist x (join sep xs)"
proof (induction sep xs rule: join.induct)
  case (1 sep)
  then show ?case by simp
next
  case (2 sep y)
  then show ?case by simp
next
  case (3 sep a b ys)
  show ?case
  proof (cases "x = a")
    case True
    then show ?thesis by (simp add: sublist_append)
  next
    case False
    with 3 have "sublist x (join sep (b # ys))" by simp
    then obtain ps ss where "join sep (b # ys) = ps @ x @ ss" by (auto simp: sublist_def)
    then have "join sep (a # b # ys) = (a @ sep @ ps) @ x @ ss" by simp
    then show ?thesis unfolding sublist_def by blast
  qed
qed

lemma sublist_prepend: "sublist x ys \<Longrightarrow> sublist x (zs @ ys)"
  by (auto simp: sublist_def) (metis append.assoc)

lemma classify_status_400:
  "http_status (fst (classify_image order plib tlib s file)) = 400
     \<longleftrightarrow> \<not> classify_accepts (filename file)"
  by (simp add: classify_image_def http_status_def classify_accepts_def
      split: sum.splits prod.splits)

lemma classify_rejection:
  assumes "\<not> classify_accepts (filename file)"
  shows "fst (classify_image order plib tlib s file) =
     Inl (HTTPException 400
       (text_unsupported_format @ '': '' @ file_ext (filename file)
          @ text_supported_formats @ '': '' @ join '', '' order))"
  using assms by (simp add: classify_image_def classify_accepts_def)

lemma predict_status_400:
  "http_status (fst (predict_image plib tlib g file)) = 400
     \<longleftrightarrow> \<not> validate_file_type (filename file)"
  by (simp add: predict_image_def http_status_def split: sum.splits prod.splits)

lemma predict_rejection:
  assumes "\<not> validate_file_type (filename file)"
  shows "fst (predict_image plib tlib g file) = Inl (HTTPException 400 text_unsupported_type)"
  using assms by (simp add: predict_image_def)

lemma dotfile:
  assumes "e \<in> allowed_extensions"
  shows "validate_file_type e \<and> \<not> classify_accepts e"
  using assms unfolding allowed_extensions_def
  by (elim insertE emptyE)
     (simp_all add: validate_file_type_def allowed_extensions_def endswith_def lower_def
        lower_char_def classify_accepts_def file_ext_def splitext_def rfind_def)

lemma set_example_order: "set example_order = allowed_extensions"
  by (auto simp: example_order_def allowed_extensions_def)

lemma txt_rejected:
  "\<not> classify_accepts ''test_file.txt''" "\<not> validate_file_type ''test_file.txt''"
  by (simp_all add: validate_file_type_def allowed_extensions_def endswith_def lower_def
        lower_char_def classify_accepts_def file_ext_def splitext_def rfind_def
        suffix_to_prefix)

section \<open>The results of predict\_top\_k\<close>

lemma is_topkD:
  assumes "is_topk xs k (vals, idxs)"
  shows "length idxs = k" "length vals = k" "distinct idxs" "\<forall>i \<in> set idxs. i < length xs"
    "vals = map (\<lambda>i. xs ! i) idxs" "sorted (rev vals)"
    "\<forall>j \<in> {0..<length xs} - set idxs. \<forall>v \<in> set vals. xs ! j \<le> v"
    "set vals \<subseteq> set xs"
  using assms by (auto simp: is_topk_def)

lemma predict_top_k_results:
  assumes p: "probabilities lib s t = (Inr probs, s')"
    and k: "0 \<le> k" "k \<le> int (length probs)"
    and n: "length (class_names s') = length probs"
    and c: "topk_contract (topk lib)"
  shows "\<exists>vals idxs. is_topk probs (nat k) (vals, idxs)
     \<and> topk lib probs (nat k) = (vals, idxs)
     \<and> predict_top_k lib s t k =
         (Inr (map (\<lambda>i. \<lparr>class_name = class_names s' ! (idxs ! i), confidence = vals ! i\<rparr>)
                 [0..<nat k]), s')"
proof -
  obtain vals idxs where vi: "topk lib probs (nat k) = (vals, idxs)"
    by (cases "topk lib probs (nat k)")
  have "nat k \<le> length probs" using k by simp
  then have t: "is_topk probs (nat k) (vals, idxs)"
    using c vi unfolding topk_contract_def by metis
  note d = is_topkD[OF t]
  have "\<forall>i \<in> set [0..<nat k]. i < length idxs \<and> idxs ! i < length (class_names s') \<and> i < length vals"
    using d(1,2,4) n by simp
  then have "results_loop (class_names s') vals idxs [0..<nat k] [] =
      Inr ([] @ map (\<lambda>i. \<lparr>class_name = class_names s' ! (idxs ! i), confidence = vals ! i\<rparr>) [0..<nat k])"
    by (rule results_loop_Inr)
  then have "predict_top_k lib s t k =
         (Inr (map (\<lambda>i. \<lparr>class_name = class_names s' ! (idxs ! i), confidence = vals ! i\<rparr>)
                 [0..<nat k]), s')"
    using p k vi by (simp add: predict_top_k_def torch_topk_def)
  then show ?thesis using t vi by blast
qed

lemma map_confidence_results:
  assumes "length vals = k"
  shows "map confidence (map (\<lambda>i. \<lparr>class_name = f i, confidence = vals ! i\<rparr>) [0..<k]) = vals"
proof -
  have "map confidence (map (\<lambda>i. \<lparr>class_name = f i, confidence = vals ! i\<rparr>) [0..<k])
      = map (\<lambda>i. vals ! i) [0..<length vals]"
    using assms by (simp add: comp_def)
  then show ?thesis by (simp only: map_nth)
qed

lemma map_class_name_results:
  assumes "length idxs = k"
  shows "map class_name (map (\<lambda>i. \<lparr>class_name = names ! (idxs ! i), confidence = g i\<rparr>) [0..<k])
     = map (\<lambda>i. names ! i) idxs"
proof -
  have "map class_name (map (\<lambda>i. \<lparr>class_name = names ! (idxs ! i), confidence = g i\<rparr>) [0..<k])
      = map (\<lambda>i. names ! i) (map (\<lambda>i. idxs ! i) [0..<length idxs])"
    using assms by (simp add: comp_def)
  then show ?thesis by (simp only: map_nth)
qed

section \<open>Rounding to decimal places\<close>

lemma py_round_mono:
  assumes "x \<le> y"
  shows "py_round x n \<le> py_round y n"
proof -
  have "x * 10 ^ n \<le> y * 10 ^ n" using assms by (simp add: mult_right_mono)
  then have "half_even (x * 10 ^ n) \<le> half_even (y * 10 ^ n)" by (rule half_even_mono)
  then have "(of_int (half_even (x * 10 ^ n)) :: real) \<le> of_int (half_even (y * 10 ^ n))"
    by simp
  then show ?thesis unfolding py_round_def by (simp add: divide_right_mono)
qed

lemma py_round_close: "\<bar>py_round x n - x\<bar> \<le> 1 / (2 * 10 ^ n)"
proof -
  let ?h = "of_int (half_even (x * 10 ^ n)) :: real"
  have p: "(0::real) < 10 ^ n" by simp
  have "py_round x n - x = (?h - x * 10 ^ n) / 10 ^ n"
    unfolding py_round_def by (simp add: diff_divide_distrib)
  then have "\<bar>py_round x n - x\<bar> = \<bar>?h - x * 10 ^ n\<bar> / 10 ^ n"
    by (simp add: abs_divide)
  also have "\<dots> \<le> (1 / 2) / 10 ^ n"
    using half_even_close[of "x * 10 ^ n"] p by (simp only: divide_right_mono less_imp_le)
  finally show ?thesis by simp
qed

lemma py_round_multiple: "\<exists>k :: int. py_round x n = of_int k / 10 ^ n"
  unfolding py_round_def by blast

lemma sorted_rev_map_mono:
  assumes "sorted (rev xs)" and "\<And>x y. x \<le> y \<Longrightarrow> f x \<le> f y"
  shows "sorted (rev (map f xs))"
  using assms by (induction xs) (auto simp: sorted_append)

lemma sorted_rev_first:
  assumes "sorted (rev xs)" and "v \<in> set xs"
  shows "v \<le> xs ! 0"
  using assms by (cases xs) (auto simp: sorted_append)

section \<open>A successful request\<close>

lemma classify_image_InrD:
  assumes "classify_image order plib tlib s up = (Inr resp, s')"
  shows "\<exists>t name conf s1 rs.
     process_from_bytes plib (contents up) = Inr t
     \<and> predict tlib s t = (Inr (name, conf), s1)
     \<and> predict_top_k tlib s1 t 5 = (Inr rs, s')
     \<and> response_prediction resp = \<lparr>class_name = name, confidence = py_round conf 4\<rparr>
     \<and> top_k resp = map (\<lambda>result. \<lparr>class_name = class_name result,
                                     confidence = py_round (confidence result) 4\<rparr>) rs
     \<and> success resp \<and> response_filename resp = filename up"
  using assms
  by (auto simp: classify_image_def split: if_splits sum.splits prod.splits)

lemma predict_InrD:
  assumes "predict lib s t = (Inr (name, conf), s1)"
  shows "\<exists>probs c. probabilities lib s t = (Inr probs, s1)
     \<and> probs \<noteq> [] \<and> topk lib probs 1 = ([conf], [c])
     \<and> c < length (class_names s1) \<and> name = class_names s1 ! c"
  using assms
  by (auto simp: predict_def torch_topk_def split: if_splits sum.splits prod.splits list.splits)

lemma predict_top_k_InrD:
  assumes "predict_top_k lib s t k = (Inr rs, s1)"
  shows "\<exists>probs vals idxs. probabilities lib s t = (Inr probs, s1)
     \<and> 0 \<le> k \<and> nat k \<le> length probs \<and> topk lib probs (nat k) = (vals, idxs)
     \<and> rs = map (\<lambda>i. \<lparr>class_name = class_names s1 ! (idxs ! i), confidence = vals ! i\<rparr>)
               [0..<nat k]"
proof -
  from assms obtain probs where p: "probabilities lib s t = (Inr probs, s1)"
    by (auto simp: predict_top_k_def split: sum.splits prod.splits)
  with assms obtain vals idxs where t: "torch_topk lib probs k = Inr (vals, idxs)"
    and r: "results_loop (class_names s1) vals idxs [0..<nat k] [] = Inr rs"
    by (auto simp: predict_top_k_def split: sum.splits prod.splits)
  from t have "0 \<le> k" "nat k \<le> length probs" "topk lib probs (nat k) = (vals, idxs)"
    by (auto simp: torch_topk_def split: if_splits)
  moreover from results_loop_InrD[OF r]
  have "rs = map (\<lambda>i. \<lparr>class_name = class_names s1 ! (idxs ! i), confidence = vals ! i\<rparr>)
               [0..<nat k]" by simp
  ultimately show ?thesis using p by blast
qed

lemma top1_is_max:
  assumes "is_topk probs 1 ([conf], [c])" and "j < length probs"
  shows "probs ! j \<le> conf"
proof (cases "j = c")
  case True
  then show ?thesis using is_topkD(5)[OF assms(1)] by simp
next
  case False
  then have "j \<in> {0..<length probs} - set [c]" using assms(2) by simp
  then show ?thesis using is_topkD(7)[OF assms(1)] by auto
qed

lemma topk_first_is_max:
  assumes t: "is_topk probs k (vals, idxs)" and k: "0 < k" and c: "c < length probs"
  shows "probs ! c \<le> vals ! 0"
proof (cases "c \<in> set idxs")
  case True
  then have "probs ! c \<in> set vals" using is_topkD(5)[OF t] by simp
  then show ?thesis using is_topkD(6)[OF t] by (intro sorted_rev_first)
next
  case False
  have "vals \<noteq> []" using is_topkD(2)[OF t] k by auto
  then have "vals ! 0 \<in> set vals" by (simp add: nth_mem)
  moreover have "c \<in> {0..<length probs} - set idxs" using False c by simp
  ultimately show ?thesis using is_topkD(7)[OF t] by blast
qed

section \<open>An example request\<close>

lemma py_round_example: "py_round (1 / 1000) 4 = 1 / 1000"
  by (simp add: py_round_def half_even_def)

lemma example_names_low:
  "example_categories ! Suc 0 = ''class_1''" "example_categories ! 2 = ''class_2''"
  "example_categories ! 3 = ''class_3''" "example_categories ! 4 = ''class_4''"
  by (simp_all add: example_categories_def)

lemma uniform_predict:
  "predict example_torch (ModelLoader_init example_torch) t
     = (Inr (''class_0'', 1 / 1000),
        \<lparr>model = Some uniform_model, class_names = example_categories,
         instantiations = 1, invocations = [t]\<rparr>)"
  by (simp add: predict_def uniform_probabilities torch_topk_def example_torch_simps
      topk_first_replicate example_categories_not_Nil example_names)

lemma uniform_predict_top_5:
  "predict_top_k example_torch
       \<lparr>model = Some uniform_model, class_names = example_categories,
        instantiations = Suc 0, invocations = [t]\<rparr> t 5
     = (Inr [\<lparr>class_name = ''class_0'', confidence = 1 / 1000\<rparr>,
             \<lparr>class_name = ''class_1'', confidence = 1 / 1000\<rparr>,
             \<lparr>class_name = ''class_2'', confidence = 1 / 1000\<rparr>,
             \<lparr>class_name = ''class_3'', confidence = 1 / 1000\<rparr>,
             \<lparr>class_name = ''class_4'', confidence = 1 / 1000\<rparr>],
        \<lparr>model = Some uniform_model, class_names = example_categories,
         instantiations = Suc 0, invocations = [t, t]\<rparr>)"
proof -
  let ?s1 = "\<lparr>model = Some uniform_model, class_names = example_categories,
        instantiations = Suc 0, invocations = [t]\<rparr>"
  have tk: "topk_first (replicate 1000 (1 / 1000)) 5 = (replicate 5 (1 / 1000), [0..<5])"
    by (simp add: topk_first_replicate)
  have pr: "probabilities example_torch ?s1 t
      = (Inr (replicate 1000 (1 / 1000)), ?s1\<lparr>invocations := [t, t]\<rparr>)"
    by (simp add: probabilities_loaded uniform_model_def softmax_replicate)
  have ix: "[0..<5] = [0, 1, 2, 3, 4::nat]"
    by (simp add: upt_rec)
  have rl: "results_loop example_categories (replicate 5 (1 / 1000)) [0, 1, 2, 3, 4]
        [0, 1, 2, 3, 4] []
      = Inr [\<lparr>class_name = ''class_0'', confidence = 1 / 1000\<rparr>,
             \<lparr>class_name = ''class_1'', confidence = 1 / 1000\<rparr>,
             \<lparr>class_name = ''class_2'', confidence = 1 / 1000\<rparr>,
             \<lparr>class_name = ''class_3'', confidence = 1 / 1000\<rparr>,
             \<lparr>class_name = ''class_4'', confidence = 1 / 1000\<rparr>]"
    by (simp add: length_example_categories example_names example_names_low)
  show ?thesis
    by (simp add: predict_top_k_def pr torch_topk_def example_torch_simps tk ix rl
        length_example_categories example_categories_not_Nil example_names example_names_low)
qed

lemma example_upload_accepted: "file_ext (filename example_upload) \<in> allowed_extensions"
  by (simp add: example_upload_def file_ext_def splitext_def rfind_def allowed_extensions_def
      lower_def lower_char_def)

lemma example_classify:
  "\<exists>s'. classify_image example_order example_pil example_torch
       (ModelLoader_init example_torch) example_upload
     = (Inr \<lparr>success = True,
             response_filename = ''test_image.jpg'',
             response_prediction = \<lparr>class_name = ''class_0'', confidence = 1 / 1000\<rparr>,
             top_k = [\<lparr>class_name = ''class_0'', confidence = 1 / 1000\<rparr>,
                      \<lparr>class_name = ''class_1'', confidence = 1 / 1000\<rparr>,
                      \<lparr>class_name = ''class_2'', confidence = 1 / 1000\<rparr>,
                      \<lparr>class_name = ''class_3'', confidence = 1 / 1000\<rparr>,
                      \<lparr>class_name = ''class_4'', confidence = 1 / 1000\<rparr>]\<rparr>, s')"
proof -
  have m: "mode red_image = RGB"
    by (simp add: red_image_def)
  have "\<exists>r. resize (resample example_pil) 256 red_image = Inr r"
    by (simp add: resize_def red_image_def example_pil_def nearest_def Let_def)
  then obtain r where r: "resize (resample example_pil) 256 red_image = Inr r" by blast
  from preprocess_image_returns[OF m r] obtain t where
    t: "preprocess_image example_pil red_image = Inr t" by blast
  have "load_image_from_bytes example_pil (contents example_upload) = Inr red_image"
    by (simp add: load_image_from_bytes_def example_pil_def example_upload_def red_image_def)
  then have "process_from_bytes example_pil (contents example_upload) = Inr t"
    using t by (simp add: process_from_bytes_def)
  then show ?thesis
    using example_upload_accepted
    by (simp add: classify_image_def uniform_predict uniform_predict_top_5 py_round_example
        example_upload_def)
qed

section \<open>The normalized tensor\<close>

text \<open>
  Claim C1, as amended. For every image in RGB mode, whatever its resolution, on which
  the \<open>Resize(256)\<close> step returns, \<open>preprocess_image\<close> returns a tensor of shape
  (1, 3, 224, 224) and dtype \<open>float32\<close>, every entry of which is finite: neither an
  infinity nor NaN.
\<close>

theorem preprocess_image_rgb:
  assumes "mode img = RGB" "resize (resample lib) 256 img = Inr resized"
  shows "\<exists>t. preprocess_image lib img = Inr t \<and> shape t = [1, 3, 224, 224]
     \<and> dtype t = float32
     \<and> (\<forall>c<3. \<forall>y<224. \<forall>x<224. is_finite (item t [0, c, y, x]))"
proof -
  from resize_ok[OF assms(2)] have
    r: "mode resized = mode img" "256 \<le> width resized" "256 \<le> height resized"
    by simp_all
  let ?c = "center_crop 224 resized"
  have cc: "width ?c = 224" "height ?c = 224" "mode ?c = RGB"
    using center_crop_ok[of resized] r assms(1) by simp_all
  have sh: "shape (to_tensor ?c) = [3, 224, 224]" "dtype (to_tensor ?c) = float32"
    by (simp_all add: to_tensor_def cc)
  from normalize_rgb[OF sh] obtain n where
    n: "normalize mean std (to_tensor ?c) = Inr n" "shape n = [3, 224, 224]" "dtype n = float32"
       "\<And>c y x. item n [c, y, x]
          = f32_div (f32_sub (item (to_tensor ?c) [c, y, x]) (map to_f32 mean ! c))
              (map to_f32 std ! c)"
    by blast
  have res: "preprocess_image lib img = Inr (unsqueeze0 n)"
    by (simp add: preprocess_image_def transform_def assms(2) n)
  have "shape (unsqueeze0 n) = [1, 3, 224, 224]" "dtype (unsqueeze0 n) = float32"
    by (simp_all add: unsqueeze0_def n)
  moreover have "is_finite (item (unsqueeze0 n) [0, c, y, x])" if "c < 3" for c y x
  proof -
    from to_tensor_entry[of ?c c y x] obtain v where
      v: "item (to_tensor ?c) [c, y, x] = Finite v" "\<bar>v\<bar> \<le> 2" by blast
    from mean_f32[OF that] obtain m where
      m: "map to_f32 mean ! c = Finite m" "\<bar>m\<bar> \<le> 1" by blast
    from std_f32[OF that] obtain s where
      s: "map to_f32 std ! c = Finite s" "1 / 5 \<le> s" by blast
    have "item (unsqueeze0 n) [0, c, y, x] = f32_div (f32_sub (Finite v) (Finite m)) (Finite s)"
      by (simp add: unsqueeze0_def n v m s)
    then show ?thesis using entry_finite[OF v(2) m(2) s(2)] by simp
  qed
  ultimately show ?thesis using res by blast
qed

text \<open>The theorem at a red image of 300 by 200 pixels, which is resized to 384 by 256.\<close>

theorem preprocess_image_rgb_witness:
  "\<exists>t. preprocess_image example_pil red_image = Inr t \<and> shape t = [1, 3, 224, 224]
     \<and> dtype t = float32
     \<and> (\<forall>c<3. \<forall>y<224. \<forall>x<224. is_finite (item t [0, c, y, x]))"
proof (rule preprocess_image_rgb)
  show "mode red_image = RGB" by (simp add: red_image_def)
  show "resize (resample example_pil) 256 red_image
      = Inr \<lparr>mode = RGB, width = 384, height = 256,
             getpixel = (\<lambda>x y b. getpixel red_image (x * 300 div 384) (y * 200 div 256) b)\<rparr>"
    by (simp add: resize_def red_image_def example_pil_def nearest_def Let_def)
qed

text \<open>
  Claim C1 as stated fails in two ways. An image that is not in RGB mode: a greyscale
  image (mode \<open>L\<close>) of 300 by 200 pixels becomes a tensor with one channel, and
  \<open>Normalize\<close> with three means raises; the conversion to RGB is the decode step's work
  (\<open>load_image_from_bytes\<close>), not \<open>preprocess_image\<close>'s. And an RGB image with an extreme
  aspect ratio: for an image of 1 by 9000000 pixels \<open>Resize(256)\<close> asks PIL for an image
  of 256 by 2304000000 pixels, a height beyond a C \<open>int\<close>, and PIL raises.
\<close>

theorem preprocess_image_counterexample:
  "preprocess_image example_pil gray_image
     = Inl (Exception RuntimeError ''output shape does not match the broadcast shape'')
   \<and> mode tall_image = RGB
   \<and> preprocess_image example_pil tall_image
     = Inl (Exception OverflowError ''Python int too large to convert to C int'')"
proof -
  have "preprocess_image example_pil gray_image
     = Inl (Exception RuntimeError ''output shape does not match the broadcast shape'')"
    using std_nonzero
    by (simp add: preprocess_image_def transform_def resize_def gray_image_def example_pil_def
        nearest_def center_crop_def crop_def to_tensor_def normalize_def length_mean_std Let_def)
  moreover have "preprocess_image example_pil tall_image
     = Inl (Exception OverflowError ''Python int too large to convert to C int'')"
    by (simp add: preprocess_image_def transform_def resize_def tall_image_def example_pil_def
        nearest_def Let_def)
  ultimately show ?thesis by (simp add: tall_image_def)
qed

section \<open>The ranked list\<close>

text \<open>
  Claim C2, as amended. Let the network return 1000 scores for the tensor, let there be
  1000 class names, and let \<open>torch.topk\<close> do what torch documents of it. Then for every
  \<open>k\<close> from 1 to 1000, \<open>predict_top_k\<close> returns a list of exactly \<open>k\<close> entries, every
  confidence lies in [0, 1], and the confidences are non-increasing along the list. The
  list is the result of \<open>torch.topk\<close> on the probabilities, entry by entry: the
  confidences are the values it returns and the names are those of the indices it
  returns, in its order, which are \<open>k\<close> distinct classes of highest probability. So the
  order of entries with equal confidence is the order in which \<open>torch.topk\<close> returns them.
\<close>

theorem predict_top_k_ranked:
  assumes "model s = Some m \<or> (model s = None \<and> mobilenet_v2 lib (instantiations s) = Inr m)"
    and "m t = Inr (scores # rest)" and "length scores = 1000"
    and "length (class_names s) = 1000"
    and "1 \<le> k" and "k \<le> 1000"
    and "topk_contract (topk lib)"
  shows "\<exists>results s'. predict_top_k lib s t k = (Inr results, s')
     \<and> length results = nat k
     \<and> (\<forall>r \<in> set results. 0 \<le> confidence r \<and> confidence r \<le> 1)
     \<and> sorted (rev (map confidence results))
     \<and> is_topk (softmax scores) (nat k) (topk lib (softmax scores) (nat k))
     \<and> map confidence results = fst (topk lib (softmax scores) (nat k))
     \<and> map class_name results
         = map (\<lambda>i. class_names s ! i) (snd (topk lib (softmax scores) (nat k)))"
proof -
  let ?probs = "softmax scores"
  from assms(1,2) obtain s' where p: "probabilities lib s t = (Inr ?probs, s')"
    by (auto simp: probabilities_unloaded probabilities_loaded)
  have "class_names (snd (probabilities lib s t)) = class_names s"
    using probabilities_state[OF assms(1)] by simp
  then have names: "class_names s' = class_names s" using p by simp
  have len: "length ?probs = 1000" using assms(3) by (simp add: softmax_length)
  from predict_top_k_results[OF p, of k] assms(4-7) names len
  obtain vals idxs where t: "is_topk ?probs (nat k) (vals, idxs)"
    and tk: "topk lib ?probs (nat k) = (vals, idxs)"
    and r: "predict_top_k lib s t k =
         (Inr (map (\<lambda>i. \<lparr>class_name = class_names s ! (idxs ! i), confidence = vals ! i\<rparr>)
                 [0..<nat k]), s')"
    by auto
  let ?results = "map (\<lambda>i. \<lparr>class_name = class_names s ! (idxs ! i), confidence = vals ! i\<rparr>) [0..<nat k]"
  note d = is_topkD[OF t]
  have conf: "map confidence ?results = vals" using d(2) by (rule map_confidence_results)
  have cls: "map class_name ?results = map (\<lambda>i. class_names s ! i) idxs"
    using d(1) by (rule map_class_name_results)
  have range: "\<forall>r \<in> set ?results. 0 \<le> confidence r \<and> confidence r \<le> 1"
  proof
    fix r assume "r \<in> set ?results"
    then have "confidence r \<in> confidence ` set ?results" by (rule imageI)
    then have "confidence r \<in> set (map confidence ?results)" by (simp only: set_map)
    then have "confidence r \<in> set vals" by (simp only: conf)
    then have "confidence r \<in> set ?probs" using d(8) by (rule subsetD[rotated])
    then show "0 \<le> confidence r \<and> confidence r \<le> 1" by (rule softmax_range)
  qed
  have "length ?results = nat k" by simp
  moreover have "sorted (rev (map confidence ?results))" using conf d(6) by simp
  moreover have "is_topk ?probs (nat k) (topk lib ?probs (nat k))" using t tk by simp
  moreover have "map confidence ?results = fst (topk lib ?probs (nat k))" using conf tk by simp
  moreover have "map class_name ?results
      = map (\<lambda>i. class_names s ! i) (snd (topk lib ?probs (nat k)))"
    using cls tk by simp
  ultimately show ?thesis using r range by blast
qed

text \<open>
  The theorem at \<open>k = 5\<close>, the network that gives every class the score 0, and the
  selection that returns equal values with the lower index first.
\<close>

theorem predict_top_k_ranked_witness:
  "\<exists>results s'. predict_top_k example_torch (ModelLoader_init example_torch) example_tensor 5
         = (Inr results, s')
     \<and> length results = nat 5
     \<and> (\<forall>r \<in> set results. 0 \<le> confidence r \<and> confidence r \<le> 1)
     \<and> sorted (rev (map confidence results))
     \<and> is_topk (softmax (replicate 1000 0)) (nat 5)
          (topk example_torch (softmax (replicate 1000 0)) (nat 5))
     \<and> map confidence results = fst (topk example_torch (softmax (replicate 1000 0)) (nat 5))
     \<and> map class_name results
         = map (\<lambda>i. class_names (ModelLoader_init example_torch) ! i)
             (snd (topk example_torch (softmax (replicate 1000 0)) (nat 5)))"
proof (rule predict_top_k_ranked)
  show "model (ModelLoader_init example_torch) = Some uniform_model
     \<or> (model (ModelLoader_init example_torch) = None
        \<and> mobilenet_v2 example_torch (instantiations (ModelLoader_init example_torch))
            = Inr uniform_model)"
    by (simp add: ModelLoader_init_def example_torch_simps)
  show "uniform_model example_tensor = Inr (replicate 1000 0 # [])"
    by (simp add: uniform_model_def)
  show "length (replicate 1000 (0::real)) = 1000" by simp
  show "length (class_names (ModelLoader_init example_torch)) = 1000"
    by (simp add: ModelLoader_init_def example_torch_simps length_example_categories)
  show "(1::int) \<le> 5" by simp
  show "(5::int) \<le> 1000" by simp
  show "topk_contract (topk example_torch)"
    by (simp add: example_torch_simps topk_first_contract)
qed

text \<open>
  Claim C2 as stated fails in its last part. Take the network that gives every class
  the same score, so that all 1000 probabilities are 1/1000, and \<open>k = 5\<close>, for which
  torch's CPU kernel selects with \<open>std::partial_sort\<close>. \<open>predict_top_k\<close> returns the
  classes 3, 4, 1, 0, 2 in this order, all with confidence 1/1000: class 3 comes before
  class 1, and class 4 before class 0.
\<close>

theorem tie_order_counterexample:
  "fst (predict_top_k cpu_torch (ModelLoader_init cpu_torch) example_tensor 5)
     = Inr [\<lparr>class_name = ''class_3'', confidence = 1 / 1000\<rparr>,
            \<lparr>class_name = ''class_4'', confidence = 1 / 1000\<rparr>,
            \<lparr>class_name = ''class_1'', confidence = 1 / 1000\<rparr>,
            \<lparr>class_name = ''class_0'', confidence = 1 / 1000\<rparr>,
            \<lparr>class_name = ''class_2'', confidence = 1 / 1000\<rparr>]
   \<and> categories cpu_torch ! 3 = ''class_3''
   \<and> categories cpu_torch ! 1 = ''class_1''"
proof -
  have ix: "[0..<5] = [0, 1, 2, 3, 4::nat]"
    by (simp add: upt_rec)
  have rl: "results_loop example_categories (replicate 5 (1 / 1000)) [3, 4, 1, 0, 2]
        [0, 1, 2, 3, 4] []
      = Inr [\<lparr>class_name = ''class_3'', confidence = 1 / 1000\<rparr>,
             \<lparr>class_name = ''class_4'', confidence = 1 / 1000\<rparr>,
             \<lparr>class_name = ''class_1'', confidence = 1 / 1000\<rparr>,
             \<lparr>class_name = ''class_0'', confidence = 1 / 1000\<rparr>,
             \<lparr>class_name = ''class_2'', confidence = 1 / 1000\<rparr>]"
    by (simp add: length_example_categories example_names example_names_low)
  have "fst (predict_top_k cpu_torch (ModelLoader_init cpu_torch) example_tensor 5)
     = Inr [\<lparr>class_name = ''class_3'', confidence = 1 / 1000\<rparr>,
            \<lparr>class_name = ''class_4'', confidence = 1 / 1000\<rparr>,
            \<lparr>class_name = ''class_1'', confidence = 1 / 1000\<rparr>,
            \<lparr>class_name = ''class_0'', confidence = 1 / 1000\<rparr>,
            \<lparr>class_name = ''class_2'', confidence = 1 / 1000\<rparr>]"
    by (simp add: predict_top_k_def uniform_probabilities_cpu torch_topk_def cpu_torch_simps
        topk_partial_sort_uniform ix rl length_example_categories example_categories_not_Nil
        example_names example_names_low)
  then show ?thesis
    by (simp add: cpu_torch_simps example_names_low)
qed

section \<open>The response of POST /classify\<close>

text \<open>
  Claim C3. Let \<open>torch.topk\<close> do what torch documents of it, and let a request to POST
  /classify succeed. The handler runs the network twice on the same tensor, once in
  \<open>predict\<close> and once in \<open>predict_top_k\<close>; the network is a function of the tensor here, so
  the two runs agree, as the claim supposes. Then \<open>top_k\<close> has exactly 5 entries, their
  confidences are non-increasing, \<open>prediction.confidence\<close> equals \<open>top_k[0].confidence\<close>,
  and every confidence of the response is the adapter's confidence rounded to 4 decimal
  places: a multiple of 0.0001 that differs from it by at most 0.00005.
\<close>

theorem classify_top_k_consistent:
  assumes "classify_image order plib tlib s up = (Inr resp, s')"
    and "topk_contract (topk tlib)"
  shows "length (top_k resp) = 5
     \<and> sorted (rev (map confidence (top_k resp)))
     \<and> confidence (response_prediction resp) = confidence (top_k resp ! 0)
     \<and> (\<exists>t name conf s1 rs.
           process_from_bytes plib (contents up) = Inr t
           \<and> predict tlib s t = (Inr (name, conf), s1)
           \<and> predict_top_k tlib s1 t 5 = (Inr rs, s')
           \<and> confidence (response_prediction resp) = py_round conf 4
           \<and> \<bar>py_round conf 4 - conf\<bar> \<le> 1 / (2 * 10 ^ 4)
           \<and> map confidence (top_k resp) = map (\<lambda>r. py_round (confidence r) 4) rs
           \<and> (\<forall>r \<in> set rs. \<bar>py_round (confidence r) 4 - confidence r\<bar> \<le> 1 / (2 * 10 ^ 4)))
     \<and> (\<forall>c \<in> set (confidence (response_prediction resp) # map confidence (top_k resp)).
           \<exists>n :: int. c = of_int n / 10 ^ 4)"
proof -
  from classify_image_InrD[OF assms(1)] obtain t name conf s1 rs where
    pb: "process_from_bytes plib (contents up) = Inr t"
    and p1: "predict tlib s t = (Inr (name, conf), s1)"
    and pk: "predict_top_k tlib s1 t 5 = (Inr rs, s')"
    and rp: "response_prediction resp = \<lparr>class_name = name, confidence = py_round conf 4\<rparr>"
    and tk: "top_k resp = map (\<lambda>result. \<lparr>class_name = class_name result,
                                     confidence = py_round (confidence result) 4\<rparr>) rs"
    by blast
  from predict_InrD[OF p1] obtain probs c where
    pr: "probabilities tlib s t = (Inr probs, s1)" and ne: "probs \<noteq> []"
    and t1: "topk tlib probs 1 = ([conf], [c])"
    by blast
  have "1 \<le> length probs" using ne by (simp add: Suc_le_eq)
  then have "is_topk probs 1 (topk tlib probs 1)"
    using assms(2) unfolding topk_contract_def by blast
  then have k1: "is_topk probs 1 ([conf], [c])" by (simp only: t1)
  from probabilities_Inr[OF pr] obtain m row rest where
    m: "model s1 = Some m" "m t = Inr (row # rest)" "probs = softmax row"
    by blast
  from predict_top_k_InrD[OF pk] obtain probs' vals idxs where
    pr': "probabilities tlib s1 t = (Inr probs', s')"
    and le: "nat 5 \<le> length probs'"
    and t5: "topk tlib probs' (nat 5) = (vals, idxs)"
    and rs: "rs = map (\<lambda>i. \<lparr>class_name = class_names s' ! (idxs ! i), confidence = vals ! i\<rparr>)
               [0..<nat 5]"
    by blast
  have same: "probs' = probs"
    using pr' m by (simp add: probabilities_loaded)
  have "is_topk probs' (nat 5) (topk tlib probs' (nat 5))"
    using assms(2) le unfolding topk_contract_def by blast
  then have "is_topk probs' (nat 5) (vals, idxs)" by (simp only: t5)
  then have k5: "is_topk probs (nat 5) (vals, idxs)" by (simp only: same)
  note d1 = is_topkD[OF k1] and d5 = is_topkD[OF k5]
  have cv: "map confidence rs = vals"
    unfolding rs using d5(2) by (rule map_confidence_results)
  have len: "length rs = 5" unfolding rs by simp
  have conf_tk: "map confidence (top_k resp) = map (\<lambda>v. py_round v 4) vals"
    unfolding tk cv[symmetric] by (simp add: comp_def)
  have conf_tk': "map confidence (top_k resp) = map (\<lambda>r. py_round (confidence r) 4) rs"
    unfolding tk by (simp add: comp_def)
  have 1: "length (top_k resp) = 5" unfolding tk using len by simp
  have 2: "sorted (rev (map confidence (top_k resp)))"
    unfolding conf_tk using d5(6) by (rule sorted_rev_map_mono) (rule py_round_mono)
  have lv: "length vals = 5" using d5(2) by simp
  have "c < length probs" using d1(4) by simp
  then have a: "probs ! c \<le> vals ! 0" using k5 by (intro topk_first_is_max[of probs "nat 5" vals idxs]) simp_all
  have "idxs ! 0 \<in> set idxs" using d5(1) by (intro nth_mem) simp
  then have "idxs ! 0 < length probs" using d5(4) by blast
  then have "probs ! (idxs ! 0) \<le> conf" using k1 by (intro top1_is_max)
  moreover have "vals ! 0 = probs ! (idxs ! 0)" using d5(1,5) by simp
  moreover have "conf = probs ! c" using d1(5) by simp
  ultimately have eq: "conf = vals ! 0" using a by simp
  have "confidence (top_k resp ! 0) = map confidence (top_k resp) ! 0"
    using 1 by (simp add: nth_map)
  also have "\<dots> = py_round (vals ! 0) 4" unfolding conf_tk using lv by simp
  finally have 3: "confidence (response_prediction resp) = confidence (top_k resp ! 0)"
    using rp eq by simp
  have 4: "\<forall>c \<in> set (confidence (response_prediction resp) # map confidence (top_k resp)).
           \<exists>n :: int. c = of_int n / 10 ^ 4"
    unfolding conf_tk using rp py_round_multiple[of _ 4] by auto
  have 5: "confidence (response_prediction resp) = py_round conf 4" using rp by simp
  show ?thesis
    using 1 2 3 4 5 pb p1 pk conf_tk' py_round_close[of _ 4] by blast
qed

text \<open>
  The theorem at the upload \<open>test_image.jpg\<close>, which the example PIL decodes to a red
  image of 300 by 200 pixels, and the network that gives every class the score 0.
\<close>

theorem classify_top_k_consistent_witness:
  "\<exists>resp s'. classify_image example_order example_pil example_torch
        (ModelLoader_init example_torch) example_upload = (Inr resp, s')
     \<and> length (top_k resp) = 5
     \<and> sorted (rev (map confidence (top_k resp)))
     \<and> confidence (response_prediction resp) = confidence (top_k resp ! 0)
     \<and> map confidence (top_k resp) = [1 / 1000, 1 / 1000, 1 / 1000, 1 / 1000, 1 / 1000]"
proof -
  from example_classify obtain resp s' where
    r: "classify_image example_order example_pil example_torch
          (ModelLoader_init example_torch) example_upload = (Inr resp, s')"
    and v: "map confidence (top_k resp) = [1 / 1000, 1 / 1000, 1 / 1000, 1 / 1000, 1 / 1000]"
    by force
  have c: "topk_contract (topk example_torch)"
    by (simp add: example_torch_simps topk_first_contract)
  note cr = classify_top_k_consistent[OF r c]
  from cr have 1: "length (top_k resp) = 5" by (rule conjunct1)
  from cr have 2: "sorted (rev (map confidence (top_k resp)))"
    by (rule conjunct2[THEN conjunct1])
  from cr have 3: "confidence (response_prediction resp) = confidence (top_k resp ! 0)"
    by (rule conjunct2[THEN conjunct2, THEN conjunct1])
  show ?thesis by (intro exI[of _ resp] exI[of _ s'] conjI) (rule r 1 2 3 v)+
qed

section \<open>Tensors of another shape\<close>




section \<open>Loading once\<close>

text \<open>
  Claim C5, as amended. Take a \<open>ModelLoader\<close> that has not loaded its network, and a
  module \<open>backend/model.py\<close> whose \<open>_classifier_instance\<close> is still \<open>None\<close>, as both are
  when the process starts, and let the first instantiation succeed. Then after any number
  \<open>n + 1\<close> of calls of \<open>load_model\<close> the network has been instantiated exactly once more than
  before, the handle is the one that the first call stored, and a further call changes
  nothing. An inference call (\<open>predict\<close>, \<open>predict_top_k\<close>) made before any load
  instantiates the network itself, once; made after the loads, it instantiates nothing.
  In the second pipeline any number \<open>n + 1\<close> of calls of \<open>get_classifier\<close> call
  \<open>torch.hub.load\<close> once, and every later call returns the cached instance.
\<close>

theorem load_once:
  assumes "model s = None" "mobilenet_v2 lib (instantiations s) = Inr m"
    and "classifier_instance g = None" "hub_load lib (hub_loads g) = Inr h"
  shows "instantiations (load_times lib (Suc n) s) = Suc (instantiations s)
     \<and> model (load_times lib (Suc n) s) = Some m
     \<and> load_model lib (load_times lib (Suc n) s) = (Inr (), load_times lib (Suc n) s)
     \<and> instantiations (snd (predict lib s t)) = Suc (instantiations s)
     \<and> model (snd (predict lib s t)) = Some m
     \<and> instantiations (snd (predict_top_k lib s t k)) = Suc (instantiations s)
     \<and> model (snd (predict_top_k lib s t k)) = Some m
     \<and> instantiations (snd (predict lib (load_times lib (Suc n) s) t)) = Suc (instantiations s)
     \<and> model (snd (predict lib (load_times lib (Suc n) s) t)) = Some m
     \<and> hub_loads (get_times lib (Suc n) g) = Suc (hub_loads g)
     \<and> classifier_instance (get_times lib (Suc n) g) = Some \<lparr>classifier_model = h\<rparr>
     \<and> get_classifier lib (get_times lib (Suc n) g)
         = (Inr \<lparr>classifier_model = h\<rparr>, get_times lib (Suc n) g)"
proof -
  let ?s1 = "s\<lparr>model := Some m, instantiations := Suc (instantiations s)\<rparr>"
  let ?g1 = "g\<lparr>hub_loads := Suc (hub_loads g), classifier_instance := Some \<lparr>classifier_model = h\<rparr>\<rparr>"
  have s1: "load_times lib (Suc n) s = ?s1"
    using assms(1,2) by (simp add: load_model_unloaded load_times_loaded[of _ m])
  have "get_classifier lib g = (Inr \<lparr>classifier_model = h\<rparr>, ?g1)"
    using assms(3,4) by (simp add: get_classifier_def ImageClassifier_init_def)
  then have g1: "get_times lib (Suc n) g = ?g1"
    by (simp add: get_times_cached[of _ "\<lparr>classifier_model = h\<rparr>"])
  have a: "model ?s1 = Some m" by simp
  note p0 = probabilities_state[of s m lib t] and p1 = probabilities_state[of ?s1 m lib t]
  show ?thesis
    unfolding s1 g1 predict_state predict_top_k_state
    using assms(1,2) p0 p1
    by (simp add: load_model_loaded[of _ m] get_classifier_cached)
qed

text \<open>
  The theorem at the process start, with three calls of \<open>load_model\<close> and of
  \<open>get_classifier\<close>.
\<close>

theorem load_once_witness:
  "instantiations (load_times example_torch (Suc 2) (ModelLoader_init example_torch)) = 1
   \<and> model (load_times example_torch (Suc 2) (ModelLoader_init example_torch)) = Some uniform_model
   \<and> instantiations (snd (predict example_torch (ModelLoader_init example_torch) example_tensor)) = 1
   \<and> hub_loads (get_times example_torch (Suc 2) model_py_init) = 1"
  using load_once[of "ModelLoader_init example_torch" example_torch uniform_model
      model_py_init uniform_model 2 example_tensor 5]
  by (simp add: ModelLoader_init_def example_torch_def model_py_init_def)

text \<open>
  Claim C5 as stated fails when an instantiation raises. \<open>load_model\<close> assigns
  \<open>self.model\<close> only after \<open>models.mobilenet_v2\<close> has returned, and \<open>get_classifier\<close> assigns
  \<open>_classifier_instance\<close> only after \<open>ImageClassifier()\<close> has returned. With a library
  whose first instantiation fails, the first call of \<open>load_model\<close> raises and leaves the
  loader without a network, the second call instantiates again, and two calls have
  instantiated twice; in the second pipeline two calls of \<open>get_classifier\<close> call
  \<open>torch.hub.load\<close> twice.
\<close>

theorem load_retry_counterexample:
  "fst (load_model flaky_torch (ModelLoader_init flaky_torch))
     = Inl (Exception OSError ''Network is unreachable'')
   \<and> model (load_times flaky_torch 1 (ModelLoader_init flaky_torch)) = None
   \<and> model (load_times flaky_torch 2 (ModelLoader_init flaky_torch)) = Some uniform_model
   \<and> instantiations (load_times flaky_torch 2 (ModelLoader_init flaky_torch)) = 2
   \<and> classifier_instance (get_times flaky_torch 1 model_py_init) = None
   \<and> hub_loads (get_times flaky_torch 2 model_py_init) = 2"
  by (simp add: numeral_2_eq_2 load_model_def ModelLoader_init_def flaky_torch_simps
      get_classifier_def ImageClassifier_init_def model_py_init_def)

section \<open>Accepted and rejected uploads\<close>

text \<open>
  Claim C7, as amended. Each endpoint answers 400 exactly for the file names that its own
  test rejects, and the tests are these: POST /classify accepts a file name if and only if
  the extension that \<open>os.path.splitext\<close> gives, in lower case, is one of \<open>.jpg .jpeg .png .bmp
  .gif .webp\<close>; POST /predict accepts it if and only if the file name in lower case ends
  with one of the six. Every name that /classify accepts, /predict accepts too. The
  message of /classify's 400 contains each of the six extensions, whatever the order in
  which the set is iterated, so it lists \<open>.jpg\<close>; the message of /predict's 400 is a fixed
  text that lists \<open>jpg, jpeg, png, bmp, gif, webp\<close>.
\<close>

theorem upload_validation:
  assumes "set order = allowed_extensions"
  shows "(http_status (fst (classify_image order plib tlib s up)) = 400
            \<longleftrightarrow> file_ext (filename up) \<notin> allowed_extensions)
     \<and> (file_ext (filename up) \<notin> allowed_extensions \<longrightarrow>
          (\<exists>d. fst (classify_image order plib tlib s up) = Inl (HTTPException 400 d)
               \<and> (\<forall>e \<in> allowed_extensions. sublist e d)))
     \<and> (http_status (fst (predict_image plib tlib g up)) = 400
            \<longleftrightarrow> \<not> (\<exists>ext \<in> allowed_extensions. suffix ext (lower (filename up))))
     \<and> (\<not> (\<exists>ext \<in> allowed_extensions. suffix ext (lower (filename up))) \<longrightarrow>
          fst (predict_image plib tlib g up) = Inl (HTTPException 400 text_unsupported_type))
     \<and> sublist ''jpg, jpeg, png, bmp, gif, webp'' text_unsupported_type
     \<and> (file_ext (filename up) \<in> allowed_extensions \<longrightarrow>
          (\<exists>ext \<in> allowed_extensions. suffix ext (lower (filename up))))"
proof -
  have 1: "http_status (fst (classify_image order plib tlib s up)) = 400
            \<longleftrightarrow> file_ext (filename up) \<notin> allowed_extensions"
    by (simp add: classify_status_400 classify_accepts_def)
  have 2: "\<exists>d. fst (classify_image order plib tlib s up) = Inl (HTTPException 400 d)
               \<and> (\<forall>e \<in> allowed_extensions. sublist e d)"
    if "file_ext (filename up) \<notin> allowed_extensions"
  proof -
    have "sublist e (text_unsupported_format @ '': '' @ file_ext (filename up)
          @ text_supported_formats @ '': '' @ join '', '' order)" if "e \<in> allowed_extensions" for e
    proof -
      have "sublist e (join '', '' order)" using that assms by (intro sublist_join) simp
      then show ?thesis by (intro sublist_prepend)
    qed
    moreover have "\<not> classify_accepts (filename up)"
      using that by (simp add: classify_accepts_def)
    ultimately show ?thesis by (simp add: classify_rejection)
  qed
  have 3: "http_status (fst (predict_image plib tlib g up)) = 400
            \<longleftrightarrow> \<not> (\<exists>ext \<in> allowed_extensions. suffix ext (lower (filename up)))"
    by (simp add: predict_status_400 validate_file_type_def endswith_def)
  have 4: "fst (predict_image plib tlib g up) = Inl (HTTPException 400 text_unsupported_type)"
    if "\<not> (\<exists>ext \<in> allowed_extensions. suffix ext (lower (filename up)))"
    using that by (intro predict_rejection) (simp add: validate_file_type_def endswith_def)
  have 5: "sublist ''jpg, jpeg, png, bmp, gif, webp'' text_unsupported_type"
    unfolding text_unsupported_type_def by (rule sublist_appendI)
  have 6: "\<exists>ext \<in> allowed_extensions. suffix ext (lower (filename up))"
    if "file_ext (filename up) \<in> allowed_extensions"
    using that file_ext_suffix by blast
  show ?thesis using 1 2 3 4 5 6 by blast
qed

text \<open>The theorem at the upload \<open>test_file.txt\<close>: 400 from both endpoints, and \<open>.jpg\<close> in the
  message of /classify.\<close>

theorem upload_validation_witness:
  "http_status (fst (classify_image example_order example_pil example_torch
       (ModelLoader_init example_torch) txt_upload)) = 400
   \<and> (\<exists>d. fst (classify_image example_order example_pil example_torch
              (ModelLoader_init example_torch) txt_upload) = Inl (HTTPException 400 d)
          \<and> sublist ''.jpg'' d)
   \<and> http_status (fst (predict_image example_pil example_torch model_py_init txt_upload)) = 400"
proof -
  have a: "file_ext (filename txt_upload) \<notin> allowed_extensions"
    using txt_rejected(1) by (simp add: txt_upload_def classify_accepts_def)
  have b: "\<not> (\<exists>ext \<in> allowed_extensions. suffix ext (lower (filename txt_upload)))"
    using txt_rejected(2) by (simp add: txt_upload_def validate_file_type_def endswith_def)
  have c: "''.jpg'' \<in> allowed_extensions" by (simp add: allowed_extensions_def)
  from upload_validation[OF set_example_order, where up = txt_upload] a b c
  show ?thesis by blast
qed

text \<open>
  Claim C7 as stated fails for POST /predict: it does not reject the upload named
  \<open>.png\<close>, whose extension by \<open>os.path.splitext\<close> is empty; and the message of its 400 for
  \<open>test_file.txt\<close> does not contain \<open>.jpg\<close>, since it lists the formats without the dot.
\<close>

theorem upload_validation_counterexample:
  "http_status (fst (predict_image example_pil example_torch model_py_init dot_png_upload)) \<noteq> 400
   \<and> lower (snd (splitext (filename dot_png_upload))) \<notin> allowed_extensions
   \<and> http_status (fst (predict_image example_pil example_torch model_py_init txt_upload)) = 400
   \<and> \<not> sublist ''.jpg''
         (detail (projl (fst (predict_image example_pil example_torch model_py_init txt_upload))))"
proof -
  have "validate_file_type (filename dot_png_upload)"
    using dotfile[of "''.png''"] by (simp add: dot_png_upload_def allowed_extensions_def)
  then have 1: "http_status (fst (predict_image example_pil example_torch model_py_init dot_png_upload)) \<noteq> 400"
    by (simp add: predict_status_400)
  have 2: "lower (snd (splitext (filename dot_png_upload))) \<notin> allowed_extensions"
    using dotfile[of "''.png''"]
    by (simp add: dot_png_upload_def allowed_extensions_def classify_accepts_def file_ext_def)
  have r: "\<not> validate_file_type (filename txt_upload)"
    using txt_rejected(2) by (simp add: txt_upload_def)
  then have 3: "http_status (fst (predict_image example_pil example_torch model_py_init txt_upload)) = 400"
    by (simp add: predict_status_400)
  have 4: "\<not> sublist ''.jpg''
         (detail (projl (fst (predict_image example_pil example_torch model_py_init txt_upload))))"
    using r by (simp add: predict_rejection text_unsupported_type_def sublist_code)
  show ?thesis using 1 2 3 4 by blast
qed

section \<open>The two endpoints disagree\<close>

text \<open>
  Claim C10. For a file name that consists of an allowed extension and nothing else,
  such as \<open>.jpg\<close>, the test of POST /predict (the lower-cased name ends with an allowed
  suffix) succeeds and the test of POST /classify (the extension by \<open>os.path.splitext\<close> is
  in the set) fails: /predict does not answer 400 and /classify does. So the two tests
  are not the same predicate on file names.
\<close>

theorem extension_checks_differ:
  assumes "e \<in> allowed_extensions"
  shows "validate_file_type e \<and> \<not> classify_accepts e
     \<and> http_status (fst (predict_image plib tlib g \<lparr>filename = e, contents = b\<rparr>)) \<noteq> 400
     \<and> http_status (fst (classify_image order plib tlib s \<lparr>filename = e, contents = b\<rparr>)) = 400
     \<and> classify_accepts \<noteq> validate_file_type"
proof -
  from dotfile[OF assms] have d: "validate_file_type e" "\<not> classify_accepts e" by simp_all
  then have "classify_accepts \<noteq> validate_file_type" by metis
  then show ?thesis using d by (simp add: predict_status_400 classify_status_400)
qed

text \<open>The theorem at the file name \<open>.jpg\<close>.\<close>

theorem extension_checks_differ_witness:
  "validate_file_type ''.jpg'' \<and> \<not> classify_accepts ''.jpg''
   \<and> http_status (fst (predict_image example_pil example_torch model_py_init dot_jpg_upload)) \<noteq> 400
   \<and> http_status (fst (classify_image example_order example_pil example_torch
        (ModelLoader_init example_torch) dot_jpg_upload)) = 400"
  using extension_checks_differ[of "''.jpg''" example_pil example_torch model_py_init
      "[255, 216, 255]" example_order "ModelLoader_init example_torch"]
  by (simp add: allowed_extensions_def dot_jpg_upload_def)

end
